theory Spec2Isabelle
  imports
    Complex_Main
    "HOL-Library.Char_ord"
    "HOL-Library.List_Lexorder"
    "HOL-Library.Product_Lexorder"
    "HOL-Library.Multiset"
begin

section \<open>Python values and library functions used by claspy\<close>

text \<open>
  Strings are \<^typ>\<open>string\<close>; their order (Python's \<open><\<close> on \<open>str\<close>) is the
  lexicographic order on character codes, given by the library instances for
  \<^typ>\<open>char\<close> and lists. Every exception the code can raise is a value of
  \<open>error\<close>, and a function that can raise returns \<open>error + 'a\<close>.
\<close>

datatype error =
    ValueError string
  | KeyError string
  | TypeError
  | AttributeError
  | AssertionError string
  | IndexError
  | ZeroDivisionError
  | Unmodelled string

text \<open>A JSON document as \<open>json.load\<close> returns it; a \<open>dict\<close> keeps its insertion order.\<close>

datatype json =
    JNull
  | JBool bool
  | JInt int
  | JFloat string
  | JStr string
  | JList "json list"
  | JObj "(string \<times> json) list"

text \<open>\<open>d[k] = v\<close> on a \<open>dict\<close>: an existing key keeps its place, a new key goes last.\<close>

fun dict_set :: "('k \<times> 'v) list \<Rightarrow> 'k \<Rightarrow> 'v \<Rightarrow> ('k \<times> 'v) list" where
  "dict_set [] k v = [(k, v)]"
| "dict_set ((k', v') # d) k v = (if k' = k then (k, v) # d else (k', v') # dict_set d k v)"

text \<open>\<open>s.add(x)\<close> on a \<open>set\<close> held as a list of distinct elements.\<close>

definition set_add :: "'a \<Rightarrow> 'a list \<Rightarrow> 'a list" where
  "set_add x xs = (if x \<in> set xs then xs else xs @ [x])"

text \<open>\<open>sep.join(xs)\<close>.\<close>

fun py_join :: "string \<Rightarrow> string list \<Rightarrow> string" where
  "py_join sep [] = []"
| "py_join sep [x] = x"
| "py_join sep (x # y # ys) = x @ sep @ py_join sep (y # ys)"

text \<open>\<open>s.split(",")\<close>: the pieces between commas, always at least one piece.\<close>

fun split_comma :: "string \<Rightarrow> string list" where
  "split_comma [] = [[]]"
| "split_comma (c # cs) =
     (if c = CHR '','' then [] # split_comma cs
      else (case split_comma cs of [] \<Rightarrow> [[c]] | w # ws \<Rightarrow> (c # w) # ws))"

text \<open>\<open>s.replace(" ", "")\<close> and \<open>s.lower()\<close> (on ASCII letters).\<close>

definition remove_spaces :: "string \<Rightarrow> string" where
  "remove_spaces s = filter (\<lambda>c. c \<noteq> CHR '' '') s"

definition lower_char :: "char \<Rightarrow> char" where
  "lower_char c =
     (if CHR ''A'' \<le> c \<and> c \<le> CHR ''Z'' then char_of (of_char c + (32 :: nat)) else c)"

definition lower :: "string \<Rightarrow> string" where
  "lower s = map lower_char s"

text \<open>\<open>s.startswith(p)\<close> and \<open>sub in s\<close>.\<close>

definition startswith :: "string \<Rightarrow> string \<Rightarrow> bool" where
  "startswith s p = (take (length p) s = p)"

fun contains :: "string \<Rightarrow> string \<Rightarrow> bool" where
  "contains [] sub = (sub = [])"
| "contains (c # cs) sub = (startswith (c # cs) sub \<or> contains cs sub)"


section \<open>markers.py: the marker registry\<close>

definition valid_names :: "(int \<times> string list) list" where
  "valid_names =
    [(9606,
      [''Amelogenin'', ''CSF1PO'', ''D10S1248'', ''D12S391'', ''D13S317'', ''D16S539'',
       ''D17S1301'', ''D18S51'', ''D19S433'', ''D1S1656'', ''D20S482'', ''D21S11'',
       ''D22S1045'', ''D2S1338'', ''D2S441'', ''D3S1358'', ''D4S2408'', ''D5S818'',
       ''D6S1043'', ''D7S820'', ''D8S1179'', ''D9S1122'', ''DXS10074'', ''DXS101'',
       ''DXS10103'', ''DXS10135'', ''DXS7132'', ''DXS7423'', ''DXS8378'', ''DYF387S1'',
       ''DYS19'', ''DYS385a-b'', ''DYS389I'', ''DYS389II'', ''DYS390'', ''DYS391'',
       ''DYS391'', ''DYS392'', ''DYS437'', ''DYS438'', ''DYS439'', ''DYS448'', ''DYS460'',
       ''DYS481'', ''DYS505'', ''DYS522'', ''DYS533'', ''DYS549'', ''DYS570'', ''DYS570'',
       ''DYS576'', ''DYS576'', ''DYS612'', ''DYS635'', ''DYS643'', ''F13A01'', ''F13B'',
       ''FESFPS'', ''FGA'', ''HPRTB'', ''LPL'', ''Penta C'', ''Penta D'', ''Penta E'',
       ''SE33'', ''TH01'', ''TPOX'', ''Y-GATA-H4'', ''vWA'']),
     (10090,
      [''Mouse STR 1-1'', ''Mouse STR 1-2'', ''Mouse STR 2-1'', ''Mouse STR 3-2'',
       ''Mouse STR 4-2'', ''Mouse STR 5-5'', ''Mouse STR 6-4'', ''Mouse STR 6-7'',
       ''Mouse STR 7-1'', ''Mouse STR 8-1'', ''Mouse STR 9-2'', ''Mouse STR 11-2'',
       ''Mouse STR 12-1'', ''Mouse STR 13-1'', ''Mouse STR 15-3'', ''Mouse STR 17-2'',
       ''Mouse STR 18-3'', ''Mouse STR 19-2'', ''Mouse STR X-1'']),
     (9615,
      [''Dog FHC2010'', ''Dog FHC2054'', ''Dog FHC2079'', ''Dog PEZ1'', ''Dog PEZ3'',
       ''Dog PEZ5'', ''Dog PEZ6'', ''Dog PEZ8'', ''Dog PEZ12'', ''Dog PEZ20''])]"

definition species_by_taxid :: "(int \<times> string) list" where
  "species_by_taxid = [(9606, ''human''), (10090, ''mouse''), (9615, ''dog'')]"

text \<open>
  \<open>standardize_name\<close>: the first registry name, species by species, that equals the
  given name once spaces are removed and letters lowered. Python returns the pair
  \<open>(None, None)\<close> when there is none; that pair is \<open>None\<close> here.
\<close>

definition normal_form :: "string \<Rightarrow> string" where
  "normal_form name = lower (remove_spaces name)"

fun scan_species :: "string \<Rightarrow> int \<Rightarrow> string list \<Rightarrow> (string \<times> int) option" where
  "scan_species candidate t [] = None"
| "scan_species candidate t (species_name # names) =
     (if candidate = normal_form species_name then Some (species_name, t)
      else scan_species candidate t names)"

fun scan_table :: "string \<Rightarrow> (int \<times> string list) list \<Rightarrow> (string \<times> int) option" where
  "scan_table candidate [] = None"
| "scan_table candidate ((t, species_names) # table) =
     (case scan_species candidate t species_names of
        Some r \<Rightarrow> Some r
      | None \<Rightarrow> scan_table candidate table)"

definition standardize_name :: "string \<Rightarrow> (string \<times> int) option" where
  "standardize_name name = scan_table (normal_form name) valid_names"

text \<open>
  \<open>validate_names\<close>. The loop fills the set \<open>taxids\<close> (holding \<open>None\<close> for an
  unresolved name) and the dict \<open>valid\<close>. \<open>None in taxids\<close> is
  \<^term>\<open>those taxids = None\<close>. After both checks the set has at most one element, so
  \<open>taxids.pop()\<close> has no choice; on the empty set it raises \<open>KeyError\<close>.
\<close>

fun validate_loop ::
  "string list \<Rightarrow> int option list \<times> (string \<times> string option) list
     \<Rightarrow> int option list \<times> (string \<times> string option) list" where
  "validate_loop [] st = st"
| "validate_loop (name # names) (taxids, valid) =
     (case standardize_name name of
        None \<Rightarrow> validate_loop names (set_add None taxids, dict_set valid name None)
      | Some (canon, t) \<Rightarrow>
          validate_loop names (set_add (Some t) taxids, dict_set valid name (Some canon)))"

fun species_of :: "int list \<Rightarrow> error + string list" where
  "species_of [] = Inr []"
| "species_of (t # ts) =
     (case map_of species_by_taxid t of
        None \<Rightarrow> Inl (KeyError ''taxid'')
      | Some s \<Rightarrow> (case species_of ts of Inl e \<Rightarrow> Inl e | Inr ss \<Rightarrow> Inr (s # ss)))"

definition invalid_names :: "(string \<times> string option) list \<Rightarrow> string list" where
  "invalid_names valid = map fst (filter (\<lambda>(name, valid_name). valid_name = None) valid)"

definition resolved :: "(string \<times> string option) list \<Rightarrow> (string \<times> string) list" where
  "resolved valid = List.map_filter (\<lambda>(name, v). map_option (Pair name) v) valid"

definition validate_names :: "string list \<Rightarrow> error + (string \<times> string) list \<times> int" where
  "validate_names marker_names =
     (case validate_loop marker_names ([], []) of (taxids, valid) \<Rightarrow>
        (case those taxids of
           None \<Rightarrow>
             Inl (ValueError (''invalid marker name(s): '' @ py_join '', '' (invalid_names valid)))
         | Some ts \<Rightarrow>
             if length ts > 1 then
               (case species_of ts of
                  Inl e \<Rightarrow> Inl e
                | Inr species \<Rightarrow>
                    Inl (ValueError
                      (''list of marker names includes markers from different species: ''
                         @ py_join '', '' (sort species))))
             else
               (case ts of
                  [] \<Rightarrow> Inl (KeyError ''pop from an empty set'')
                | t # _ \<Rightarrow> Inr (resolved valid, t))))"


section \<open>str_profile.py: profiles and scoring\<close>

text \<open>
  A \<open>Profile\<close> holds its metadata, the species identifier that validation returned
  and the dict \<open>_alleles\<close> from canonical marker name to a set of allele tokens. The
  dict is an association list in insertion order; each set is the list of its elements
  in the order Python iterates them (no order is promised, so no theorem depends on it).
\<close>

record profile =
  meta :: json
  taxid :: int
  alleles :: "(string \<times> string list) list"

definition parse_allele_string :: "string \<Rightarrow> string list" where
  "parse_allele_string s = remdups (split_comma (remove_spaces s))"

text \<open>
  \<open>Profile.__init__\<close>: validate the keys, then store every allele string, parsed, under
  the canonical name of its key. A value that is not a \<open>str\<close> has no \<open>replace\<close>.
\<close>

fun init_loop ::
  "(string \<times> string) list \<Rightarrow> (string \<times> json) list \<Rightarrow> (string \<times> string list) list
     \<Rightarrow> error + (string \<times> string list) list" where
  "init_loop names [] acc = Inr acc"
| "init_loop names ((marker, marker_alleles) # rest) acc =
     (case map_of names marker of
        None \<Rightarrow> Inl (KeyError marker)
      | Some canon \<Rightarrow>
          (case marker_alleles of
             JStr s \<Rightarrow> init_loop names rest (dict_set acc canon (parse_allele_string s))
           | _ \<Rightarrow> Inl AttributeError))"

definition Profile_init :: "(string \<times> json) list \<Rightarrow> json \<Rightarrow> error + profile" where
  "Profile_init als m =
     (case validate_names (map fst als) of
        Inl e \<Rightarrow> Inl e
      | Inr (names, t) \<Rightarrow>
          (case init_loop names als [] of
             Inl e \<Rightarrow> Inl e
           | Inr d \<Rightarrow> Inr \<lparr>meta = m, taxid = t, alleles = d\<rparr>))"

definition markers :: "profile \<Rightarrow> string set" where
  "markers p = set (map fst (alleles p))"

text \<open>\<open>Profile.__iter__\<close>: every (marker, allele) pair, alleles sorted as strings.\<close>

definition profile_iter :: "profile \<Rightarrow> (string \<times> string) list" where
  "profile_iter p = concat (map (\<lambda>(marker, as). map (Pair marker) (sort as)) (alleles p))"

text \<open>\<open>Profile.alleles(markers)\<close>: the set of pairs whose marker is among \<open>ms\<close>.\<close>

definition alleles_of :: "profile \<Rightarrow> string set \<Rightarrow> (string \<times> string) set" where
  "alleles_of p ms = Set.filter (\<lambda>(marker, allele). marker \<in> ms) (set (profile_iter p))"

text \<open>
  \<open>markers_for_scoring\<close>. With \<open>amel\<close> false Python returns a list of the remaining
  markers; only membership in it is used, so the result is a set in both cases.
\<close>

definition markers_for_scoring :: "profile \<Rightarrow> profile \<Rightarrow> string \<Rightarrow> bool \<Rightarrow> string set" where
  "markers_for_scoring query reference mode amel =
     (let ms = (if mode = ''intersect'' then markers query \<inter> markers reference
                else if mode = ''query'' then markers query
                else markers reference)
      in if \<not> amel then Set.filter (\<lambda>m. m \<noteq> ''Amelogenin'') ms else ms)"

text \<open>
  \<open>a / b\<close> on two \<open>int\<close>s. Python returns the double nearest to the exact quotient;
  the model returns the exact quotient. Rounding to nearest is monotone and keeps 0 and
  1, so equalities with 0 or 1, bounds by 0 and 1, and equalities between quotients of
  the same two integers are the same for both.
\<close>

definition truediv :: "nat \<Rightarrow> nat \<Rightarrow> error + rat" where
  "truediv a b = (if b = 0 then Inl ZeroDivisionError else Inr (of_nat a / of_nat b))"

definition score ::
  "profile \<Rightarrow> profile \<Rightarrow> string \<Rightarrow> string \<Rightarrow> bool \<Rightarrow> error + rat \<times> nat" where
  "score query reference algorithm mode amel =
     (if algorithm \<notin> {''Tanabe'', ''query'', ''reference''} then
        Inl (ValueError (''unsupported scoring algorithm '' @ algorithm))
      else if mode \<notin> {''intersect'', ''query'', ''reference''} then
        Inl (ValueError (''unsupported scoring mode '' @ mode))
      else
        (let ms = markers_for_scoring query reference mode amel;
             query_alleles = card (alleles_of query ms);
             refr_alleles = card (alleles_of reference ms);
             shared_alleles = card (alleles_of query ms \<inter> alleles_of reference ms)
         in if shared_alleles > 0 then
              (case (if algorithm = ''Tanabe'' then truediv (2 * shared_alleles) (query_alleles + refr_alleles)
                     else if algorithm = ''query'' then truediv shared_alleles query_alleles
                     else truediv shared_alleles refr_alleles) of
                 Inl e \<Rightarrow> Inl e
               | Inr sc \<Rightarrow> Inr (sc, shared_alleles))
            else Inr (0, shared_alleles)))"



text \<open>The three counts \<open>score\<close> computes: \<open>Q\<close>, \<open>R\<close> and \<open>S\<close>.\<close>

definition query_count :: "profile \<Rightarrow> profile \<Rightarrow> string \<Rightarrow> bool \<Rightarrow> nat" where
  "query_count q r mode amel = card (alleles_of q (markers_for_scoring q r mode amel))"

definition refr_count :: "profile \<Rightarrow> profile \<Rightarrow> string \<Rightarrow> bool \<Rightarrow> nat" where
  "refr_count q r mode amel = card (alleles_of r (markers_for_scoring q r mode amel))"

definition shared_count :: "profile \<Rightarrow> profile \<Rightarrow> string \<Rightarrow> bool \<Rightarrow> nat" where
  "shared_count q r mode amel =
     card (alleles_of q (markers_for_scoring q r mode amel)
             \<inter> alleles_of r (markers_for_scoring q r mode amel))"

text \<open>Two small profiles, as \<open>Profile({"CSF1PO": "13"}, None)\<close> and
  \<open>Profile({"CSF1PO": "13", "FGA": "24"}, None)\<close> build them, and the profile of
  \<open>{"Amelogenin": "X"}\<close>.\<close>

definition one_marker :: profile where
  "one_marker = \<lparr>meta = JNull, taxid = 9606, alleles = [(''CSF1PO'', [''13''])]\<rparr>"

definition two_markers :: profile where
  "two_markers =
     \<lparr>meta = JNull, taxid = 9606, alleles = [(''CSF1PO'', [''13'']), (''FGA'', [''24''])]\<rparr>"

definition amel_only :: profile where
  "amel_only = \<lparr>meta = JNull, taxid = 9606, alleles = [(''Amelogenin'', [''X''])]\<rparr>"

definition two_alleles :: profile where
  "two_alleles = \<lparr>meta = JNull, taxid = 9606, alleles = [(''CSF1PO'', [''13'', ''14''])]\<rparr>"

text \<open>
  The registry in scan order, every name beside its normal form. \<open>standardize_name\<close>
  computes the normal forms again at every call; the table holds them once
  (\<open>registry_index_correct\<close> below), so that a lookup can be evaluated quickly.
\<close>

definition registry_index :: "(string \<times> string \<times> int) list" where
  "registry_index =
    [(''amelogenin'', ''Amelogenin'', 9606), (''csf1po'', ''CSF1PO'', 9606),
     (''d10s1248'', ''D10S1248'', 9606), (''d12s391'', ''D12S391'', 9606),
     (''d13s317'', ''D13S317'', 9606), (''d16s539'', ''D16S539'', 9606),
     (''d17s1301'', ''D17S1301'', 9606), (''d18s51'', ''D18S51'', 9606),
     (''d19s433'', ''D19S433'', 9606), (''d1s1656'', ''D1S1656'', 9606),
     (''d20s482'', ''D20S482'', 9606), (''d21s11'', ''D21S11'', 9606),
     (''d22s1045'', ''D22S1045'', 9606), (''d2s1338'', ''D2S1338'', 9606),
     (''d2s441'', ''D2S441'', 9606), (''d3s1358'', ''D3S1358'', 9606),
     (''d4s2408'', ''D4S2408'', 9606), (''d5s818'', ''D5S818'', 9606),
     (''d6s1043'', ''D6S1043'', 9606), (''d7s820'', ''D7S820'', 9606),
     (''d8s1179'', ''D8S1179'', 9606), (''d9s1122'', ''D9S1122'', 9606),
     (''dxs10074'', ''DXS10074'', 9606), (''dxs101'', ''DXS101'', 9606),
     (''dxs10103'', ''DXS10103'', 9606), (''dxs10135'', ''DXS10135'', 9606),
     (''dxs7132'', ''DXS7132'', 9606), (''dxs7423'', ''DXS7423'', 9606),
     (''dxs8378'', ''DXS8378'', 9606), (''dyf387s1'', ''DYF387S1'', 9606),
     (''dys19'', ''DYS19'', 9606), (''dys385a-b'', ''DYS385a-b'', 9606),
     (''dys389i'', ''DYS389I'', 9606), (''dys389ii'', ''DYS389II'', 9606),
     (''dys390'', ''DYS390'', 9606), (''dys391'', ''DYS391'', 9606),
     (''dys391'', ''DYS391'', 9606), (''dys392'', ''DYS392'', 9606),
     (''dys437'', ''DYS437'', 9606), (''dys438'', ''DYS438'', 9606),
     (''dys439'', ''DYS439'', 9606), (''dys448'', ''DYS448'', 9606),
     (''dys460'', ''DYS460'', 9606), (''dys481'', ''DYS481'', 9606),
     (''dys505'', ''DYS505'', 9606), (''dys522'', ''DYS522'', 9606),
     (''dys533'', ''DYS533'', 9606), (''dys549'', ''DYS549'', 9606),
     (''dys570'', ''DYS570'', 9606), (''dys570'', ''DYS570'', 9606),
     (''dys576'', ''DYS576'', 9606), (''dys576'', ''DYS576'', 9606),
     (''dys612'', ''DYS612'', 9606), (''dys635'', ''DYS635'', 9606),
     (''dys643'', ''DYS643'', 9606), (''f13a01'', ''F13A01'', 9606),
     (''f13b'', ''F13B'', 9606), (''fesfps'', ''FESFPS'', 9606), (''fga'', ''FGA'', 9606),
     (''hprtb'', ''HPRTB'', 9606), (''lpl'', ''LPL'', 9606),
     (''pentac'', ''Penta C'', 9606), (''pentad'', ''Penta D'', 9606),
     (''pentae'', ''Penta E'', 9606), (''se33'', ''SE33'', 9606),
     (''th01'', ''TH01'', 9606), (''tpox'', ''TPOX'', 9606),
     (''y-gata-h4'', ''Y-GATA-H4'', 9606), (''vwa'', ''vWA'', 9606),
     (''mousestr1-1'', ''Mouse STR 1-1'', 10090),
     (''mousestr1-2'', ''Mouse STR 1-2'', 10090),
     (''mousestr2-1'', ''Mouse STR 2-1'', 10090),
     (''mousestr3-2'', ''Mouse STR 3-2'', 10090),
     (''mousestr4-2'', ''Mouse STR 4-2'', 10090),
     (''mousestr5-5'', ''Mouse STR 5-5'', 10090),
     (''mousestr6-4'', ''Mouse STR 6-4'', 10090),
     (''mousestr6-7'', ''Mouse STR 6-7'', 10090),
     (''mousestr7-1'', ''Mouse STR 7-1'', 10090),
     (''mousestr8-1'', ''Mouse STR 8-1'', 10090),
     (''mousestr9-2'', ''Mouse STR 9-2'', 10090),
     (''mousestr11-2'', ''Mouse STR 11-2'', 10090),
     (''mousestr12-1'', ''Mouse STR 12-1'', 10090),
     (''mousestr13-1'', ''Mouse STR 13-1'', 10090),
     (''mousestr15-3'', ''Mouse STR 15-3'', 10090),
     (''mousestr17-2'', ''Mouse STR 17-2'', 10090),
     (''mousestr18-3'', ''Mouse STR 18-3'', 10090),
     (''mousestr19-2'', ''Mouse STR 19-2'', 10090),
     (''mousestrx-1'', ''Mouse STR X-1'', 10090), (''dogfhc2010'', ''Dog FHC2010'', 9615),
     (''dogfhc2054'', ''Dog FHC2054'', 9615), (''dogfhc2079'', ''Dog FHC2079'', 9615),
     (''dogpez1'', ''Dog PEZ1'', 9615), (''dogpez3'', ''Dog PEZ3'', 9615),
     (''dogpez5'', ''Dog PEZ5'', 9615), (''dogpez6'', ''Dog PEZ6'', 9615),
     (''dogpez8'', ''Dog PEZ8'', 9615), (''dogpez12'', ''Dog PEZ12'', 9615),
     (''dogpez20'', ''Dog PEZ20'', 9615)]"

fun scan_index :: "string \<Rightarrow> (string \<times> string \<times> int) list \<Rightarrow> (string \<times> int) option" where
  "scan_index candidate [] = None"
| "scan_index candidate ((key, species_name, t) # rest) =
     (if candidate = key then Some (species_name, t) else scan_index candidate rest)"

text \<open>
  What \<open>standardize_name\<close> returns for a name, one component at a time, and the
  species identifiers a list of names resolves to.
\<close>

definition resolve_taxid :: "string \<Rightarrow> int option" where
  "resolve_taxid name = map_option snd (standardize_name name)"

definition resolve_canon :: "string \<Rightarrow> string option" where
  "resolve_canon name = map_option fst (standardize_name name)"

definition taxids_of :: "string list \<Rightarrow> int set" where
  "taxids_of names = set (List.map_filter resolve_taxid names)"

text \<open>An allele set as \<open>parse_allele_string\<close> builds it: it has an element, and no
  token holds a space or a comma.\<close>

definition wf_alleles :: "string list \<Rightarrow> bool" where
  "wf_alleles as =
     (as \<noteq> [] \<and> distinct as \<and> list_all (\<lambda>a. CHR '' '' \<notin> set a \<and> CHR '','' \<notin> set a) as)"


section \<open>db.py: the persisted database\<close>


text \<open>\<open>obj[key]\<close> on a loaded JSON value: only a dict can be indexed by a string.\<close>

definition json_get :: "json \<Rightarrow> string \<Rightarrow> error + json" where
  "json_get obj key =
     (case obj of
        JObj d \<Rightarrow> (case map_of d key of None \<Rightarrow> Inl (KeyError key) | Some v \<Rightarrow> Inr v)
      | _ \<Rightarrow> Inl TypeError)"




section \<open>db.py: parsing a flat-file record\<close>

text \<open>
  The regular expressions of \<open>CellosaurusEntry\<close> are matched by hand. Each has one
  way to match: a greedy class (\<open>\d+\<close>, \<open>[^:]+\<close>, \<open>[^\n]+\<close>, the allele class) is
  followed by a literal outside the class or by nothing that can fail, so it takes the
  longest run. Characters are ASCII: \<open>\s\<close> and \<open>strip\<close> know the ASCII white space,
  \<open>\d\<close> the digits 0 to 9.
\<close>

definition is_space :: "char \<Rightarrow> bool" where
  "is_space c =
     (c \<in> set [CHR '' '', CHR 0x09, CHR 0x0A, CHR 0x0B, CHR 0x0C, CHR 0x0D,
                CHR 0x1C, CHR 0x1D, CHR 0x1E, CHR 0x1F])"

definition is_digit :: "char \<Rightarrow> bool" where
  "is_digit c = (CHR ''0'' \<le> c \<and> c \<le> CHR ''9'')"

definition strip :: "string \<Rightarrow> string" where
  "strip s = rev (dropWhile is_space (rev (dropWhile is_space s)))"

text \<open>\<open>int(s)\<close> on a string of digits.\<close>

definition digit_value :: "char \<Rightarrow> nat" where
  "digit_value c = of_char c - 48"

definition int_of_digits :: "string \<Rightarrow> nat" where
  "int_of_digits s = foldl (\<lambda>n c. 10 * n + digit_value c) 0 s"

text \<open>\<open>re.split(r"\s+", line, 1)\<close>: split once at the first run of white space.\<close>

definition split_space_once :: "string \<Rightarrow> string list" where
  "split_space_once line =
     (let rest = dropWhile (\<lambda>c. \<not> is_space c) line
      in if rest = [] then [line]
         else [takeWhile (\<lambda>c. \<not> is_space c) line, dropWhile is_space rest])"

text \<open>\<open>s.split(sep)\<close> for a separator that is not empty.\<close>

function split_acc :: "string \<Rightarrow> string \<Rightarrow> string \<Rightarrow> string list" where
  "split_acc sep cur [] = [rev cur]"
| "split_acc sep cur (c # cs) =
     (if sep \<noteq> [] \<and> startswith (c # cs) sep
      then rev cur # split_acc sep [] (drop (length sep) (c # cs))
      else split_acc sep (c # cur) cs)"
  by pat_completeness auto
termination
  by (relation "measure (\<lambda>(sep, cur, s). length s)") auto

definition split_on :: "string \<Rightarrow> string \<Rightarrow> string list" where
  "split_on sep s = split_acc sep [] s"

text \<open>
  A record being parsed: the dict \<open>meta\<close>, the dict \<open>alleles\<close> from source to the
  source's dict from marker to allele string, and the sources that the warnings
  printed to \<open>stderr\<close> name.
\<close>

record entry =
  entry_meta :: "(string \<times> json) list"
  entry_alleles :: "(string \<times> (string \<times> string) list) list"
  entry_warnings :: "string list"

definition ATTRIBUTES :: "(string \<times> string) list" where
  "ATTRIBUTES = [(''ID'', ''identifier''), (''AC'', ''accession''), (''SY'', ''synonyms'')]"

text \<open>\<open>re.match(r"OX   NCBI_TaxID=(\d+); ! ([^\n]+)", line)\<close>: the two groups.\<close>

definition match_OX :: "string \<Rightarrow> (string \<times> string) option" where
  "match_OX line =
     (if startswith line ''OX   NCBI_TaxID='' then
        (let r = drop 16 line;
             digits = takeWhile is_digit r;
             r' = dropWhile is_digit r;
             organism = takeWhile (\<lambda>c. c \<noteq> CHR 0x0A) (drop 4 r')
         in if digits \<noteq> [] \<and> startswith r' ''; ! '' \<and> organism \<noteq> []
            then Some (digits, organism) else None)
      else None)"

text \<open>\<open>list.append\<close> on the value stored under a key of the dict.\<close>

definition append_to :: "(string \<times> json) list \<Rightarrow> string \<Rightarrow> json \<Rightarrow> error + (string \<times> json) list" where
  "append_to d key v =
     (case map_of d key of
        None \<Rightarrow> Inl (KeyError key)
      | Some (JList xs) \<Rightarrow> Inr (dict_set d key (JList (xs @ [v])))
      | Some _ \<Rightarrow> Inl AttributeError)"

definition parse_meta :: "entry \<Rightarrow> string \<Rightarrow> error + entry" where
  "parse_meta e line =
     (if startswith line ''ID'' \<or> startswith line ''AC'' \<or> startswith line ''SY'' then
        (case split_space_once line of
           [key, v] \<Rightarrow>
             if key \<in> fst ` set (entry_meta e) then Inl (AssertionError key)
             else (case map_of ATTRIBUTES key of
                     None \<Rightarrow> Inl (KeyError key)
                   | Some attribute \<Rightarrow>
                       Inr (e\<lparr>entry_meta := dict_set (entry_meta e) attribute (JStr v)\<rparr>))
         | _ \<Rightarrow> Inl (ValueError ''not enough values to unpack''))
      else if startswith line ''OX'' then
        (case match_OX line of
           None \<Rightarrow> Inl (ValueError (''cannot parse species of origin: '' @ line))
         | Some (digits, organism) \<Rightarrow>
             (let m = (if ''taxid'' \<notin> fst ` set (entry_meta e)
                       then dict_set (dict_set (entry_meta e) ''taxid'' (JList []))
                              ''organism'' (JList [])
                       else entry_meta e)
              in case append_to m ''taxid'' (JInt (int (int_of_digits digits))) of
                   Inl err \<Rightarrow> Inl err
                 | Inr m' \<Rightarrow>
                     (case append_to m' ''organism'' (JStr organism) of
                        Inl err \<Rightarrow> Inl err
                      | Inr m'' \<Rightarrow> Inr (e\<lparr>entry_meta := m''\<rparr>))))
      else Inr e)"

text \<open>\<open>re.match(r"ST   Source\(s\): ([^\n]+)", line)\<close>: the group.\<close>

definition match_sources :: "string \<Rightarrow> string option" where
  "match_sources line =
     (if startswith line ''ST   Source(s): '' then
        (let source_string = takeWhile (\<lambda>c. c \<noteq> CHR 0x0A) (drop 16 line)
         in if source_string \<noteq> [] then Some source_string else None)
      else None)"

definition parse_sources :: "entry \<Rightarrow> string \<Rightarrow> error + entry" where
  "parse_sources e line =
     (if startswith line ''ST'' \<and> contains line ''Source'' then
        (case match_sources line of
           None \<Rightarrow> Inl (ValueError (''could not parse sources: '' @ line))
         | Some source_string \<Rightarrow>
             Inr (e\<lparr>entry_alleles :=
                      foldl (\<lambda>d source. dict_set d source []) (entry_alleles e)
                        (split_on ''; '' source_string)\<rparr>))
      else Inr e)"

text \<open>\<open>re.match(r"^ST   ([^:]+): ([\dXY,\. ]+)(.+)?", line)\<close>: the three groups, the
  last one \<open>None\<close> when nothing follows the alleles on the line.\<close>

definition is_allele_char :: "char \<Rightarrow> bool" where
  "is_allele_char c = (is_digit c \<or> c \<in> set ''XY,. '')"

definition match_alleles :: "string \<Rightarrow> (string \<times> string \<times> string option) option" where
  "match_alleles line =
     (if startswith line ''ST   '' then
        (let r = drop 5 line;
             marker = takeWhile (\<lambda>c. c \<noteq> CHR '':'') r;
             r' = dropWhile (\<lambda>c. c \<noteq> CHR '':'') r;
             allele_str = takeWhile is_allele_char (drop 2 r');
             sources = takeWhile (\<lambda>c. c \<noteq> CHR 0x0A) (dropWhile is_allele_char (drop 2 r'))
         in if marker \<noteq> [] \<and> startswith r' '': '' \<and> allele_str \<noteq> []
            then Some (marker, allele_str, if sources = [] then None else Some sources)
            else None)
      else None)"

text \<open>The loop over the sources named on an allele line. The warning for an undeclared
  source formats \<open>self.meta['identifier']\<close>, which must exist by then.\<close>

fun assign_sources :: "entry \<Rightarrow> string \<Rightarrow> string \<Rightarrow> string list \<Rightarrow> error + entry" where
  "assign_sources e marker allele_str [] = Inr e"
| "assign_sources e marker allele_str (source # sources) =
     (case map_of (entry_alleles e) source of
        None \<Rightarrow>
          (case map_of (entry_meta e) ''identifier'' of
             None \<Rightarrow> Inl (KeyError ''identifier'')
           | Some _ \<Rightarrow>
               assign_sources (e\<lparr>entry_warnings := entry_warnings e @ [source]\<rparr>)
                 marker allele_str sources)
      | Some marker_alleles \<Rightarrow>
          assign_sources
            (e\<lparr>entry_alleles :=
                 dict_set (entry_alleles e) source (dict_set marker_alleles marker allele_str)\<rparr>)
            marker allele_str sources)"

definition parse_alleles :: "entry \<Rightarrow> string \<Rightarrow> error + entry" where
  "parse_alleles e line =
     (if startswith line ''ST'' \<and> \<not> contains line ''Source''
         \<and> \<not> contains line ''Not_detected'' then
        (case match_alleles line of
           None \<Rightarrow> Inl (ValueError (''could not parse STR profile data: '' @ line))
         | Some (marker, allele_str, None) \<Rightarrow>
             Inr (e\<lparr>entry_alleles :=
                      map (\<lambda>(source, marker_alleles).
                             (source, dict_set marker_alleles marker (strip allele_str)))
                        (entry_alleles e)\<rparr>)
         | Some (marker, allele_str, Some sources) \<Rightarrow>
             assign_sources e marker (strip allele_str)
               (split_on ''; '' (filter (\<lambda>c. c \<noteq> CHR ''('' \<and> c \<noteq> CHR '')'') sources)))
      else Inr e)"

text \<open>\<open>CellosaurusEntry.__init__\<close>: the three parsers on every line, in order.\<close>

fun entry_loop :: "entry \<Rightarrow> string list \<Rightarrow> error + entry" where
  "entry_loop e [] = Inr e"
| "entry_loop e (line # data) =
     (case parse_meta e line of
        Inl err \<Rightarrow> Inl err
      | Inr e1 \<Rightarrow>
          (case parse_sources e1 line of
             Inl err \<Rightarrow> Inl err
           | Inr e2 \<Rightarrow>
               (case parse_alleles e2 line of
                  Inl err \<Rightarrow> Inl err
                | Inr e3 \<Rightarrow> entry_loop e3 data)))"

definition CellosaurusEntry :: "string list \<Rightarrow> error + entry" where
  "CellosaurusEntry data =
     entry_loop \<lparr>entry_meta = [], entry_alleles = [], entry_warnings = []\<rparr> data"

text \<open>The keys \<open>CellosaurusEntry\<close> ever stores in \<open>meta\<close>.\<close>

definition meta_keys :: "string set" where
  "meta_keys = {''identifier'', ''accession'', ''synonyms'', ''taxid'', ''organism''}"

section \<open>result.py: ranking the scored profiles\<close>

text \<open>
  \<open>Profile.identifier\<close>, \<open>Profile.source\<close> and \<open>Profile.slug\<close> read the metadata
  dict. The model covers metadata whose \<open>identifier\<close>, \<open>accession\<close> and \<open>source\<close> are
  strings, as the flat-file parser stores them; a missing key is the \<open>KeyError\<close> of
  the dict, and a value of another type is outside the model.
\<close>

definition str_field :: "profile \<Rightarrow> string \<Rightarrow> error + string" where
  "str_field p key =
     (case json_get (meta p) key of
        Inl e \<Rightarrow> Inl e
      | Inr (JStr s) \<Rightarrow> Inr s
      | Inr _ \<Rightarrow> Inl (Unmodelled key))"

definition profile_identifier :: "profile \<Rightarrow> error + string" where
  "profile_identifier p = str_field p ''identifier''"

definition profile_source :: "profile \<Rightarrow> error + string" where
  "profile_source p = str_field p ''source''"

definition slug :: "profile \<Rightarrow> error + string \<times> string \<times> string" where
  "slug p =
     (case profile_identifier p of
        Inl e \<Rightarrow> Inl e
      | Inr i \<Rightarrow>
          (case str_field p ''accession'' of
             Inl e \<Rightarrow> Inl e
           | Inr a \<Rightarrow> (case profile_source p of Inl e \<Rightarrow> Inl e | Inr s \<Rightarrow> Inr (i, a, s))))"


text \<open>
  \<open>ProfileResult\<close> is the named tuple \<open>(sample, score, shared_alleles, reference)\<close>. The
  score is the number \<open>Profile.score\<close> returned.
\<close>

record profile_result =
  r_sample :: string
  r_score :: rat
  r_shared_alleles :: nat
  r_reference :: profile


text \<open>
  \<open>sorted(xs, reverse=...)\<close> under a comparison \<open>lt\<close> that raises nothing: a stable sort,
  and with \<open>reverse=True\<close> the reverse of the stable sort of the reversed list, as
  \<open>list.sort\<close> does it.
\<close>

fun insert_lt :: "('a \<Rightarrow> 'a \<Rightarrow> bool) \<Rightarrow> 'a \<Rightarrow> 'a list \<Rightarrow> 'a list" where
  "insert_lt lt x [] = [x]"
| "insert_lt lt x (y # ys) = (if lt y x then y # insert_lt lt x ys else x # y # ys)"

definition sort_lt :: "('a \<Rightarrow> 'a \<Rightarrow> bool) \<Rightarrow> 'a list \<Rightarrow> 'a list" where
  "sort_lt lt xs = foldr (insert_lt lt) xs []"

definition py_sorted :: "('a \<Rightarrow> 'a \<Rightarrow> bool) \<Rightarrow> bool \<Rightarrow> 'a list \<Rightarrow> 'a list" where
  "py_sorted lt reverse xs = (if reverse then rev (sort_lt lt (rev xs)) else sort_lt lt xs)"

text \<open>
  A \<open>CellLineResult\<close> is a list of \<open>ProfileResult\<close>s. Sorting it compares results; the
  model sorts when every reference has its slug, so that no comparison can raise.
\<close>

type_synonym cell_line_result = "profile_result list"

definition has_slug :: "profile_result \<Rightarrow> bool" where
  "has_slug r = (case slug (r_reference r) of Inl e \<Rightarrow> False | Inr s \<Rightarrow> True)"


text \<open>\<open>max(xs)\<close>, and the properties of \<open>CellLineResult\<close>.\<close>

definition py_max :: "('a :: linorder) list \<Rightarrow> error + 'a" where
  "py_max xs =
     (case xs of
        [] \<Rightarrow> Inl (ValueError ''max() arg is an empty sequence'')
      | x # rest \<Rightarrow> Inr (fold max rest x))"

definition top_score :: "cell_line_result \<Rightarrow> error + rat" where
  "top_score cl = py_max (map r_score cl)"

definition top_score_shared_alleles :: "cell_line_result \<Rightarrow> error + nat" where
  "top_score_shared_alleles cl =
     (case top_score cl of
        Inl e \<Rightarrow> Inl e
      | Inr best \<Rightarrow> py_max (map r_shared_alleles (filter (\<lambda>r. r_score r = best) cl)))"

fun identifiers :: "cell_line_result \<Rightarrow> error + string list" where
  "identifiers [] = Inr []"
| "identifiers (r # rs) =
     (case profile_identifier (r_reference r) of
        Inl e \<Rightarrow> Inl e
      | Inr i \<Rightarrow> (case identifiers rs of Inl e \<Rightarrow> Inl e | Inr ids \<Rightarrow> Inr (i # ids)))"

definition assert_one :: "string list \<Rightarrow> error + string" where
  "assert_one xs =
     (if card (set xs) = 1
      then (case xs of x # _ \<Rightarrow> Inr x | [] \<Rightarrow> Inl (AssertionError []))
      else Inl (AssertionError []))"

definition cl_identifier :: "cell_line_result \<Rightarrow> error + string" where
  "cl_identifier cl = (case identifiers cl of Inl e \<Rightarrow> Inl e | Inr ids \<Rightarrow> assert_one ids)"




text \<open>The key the specification ranks by.\<close>

definition rank_key :: "profile_result \<Rightarrow> rat \<times> nat \<times> string \<times> string \<times> string" where
  "rank_key r =
     (r_score r, r_shared_alleles r,
      (case slug (r_reference r) of Inr s \<Rightarrow> s | Inl e \<Rightarrow> ([], [], [])))"

text \<open>Reference profiles and results for the examples.\<close>

definition ref_profile :: "string \<Rightarrow> string \<Rightarrow> profile" where
  "ref_profile i s =
     \<lparr>meta = JObj [(''identifier'', JStr i), (''accession'', JStr ''CVCL_0525''),
                    (''source'', JStr s)],
      taxid = 9606, alleles = [(''CSF1PO'', [''11'', ''12''])]\<rparr>"

definition result_of :: "string \<Rightarrow> rat \<Rightarrow> nat \<Rightarrow> string \<Rightarrow> string \<Rightarrow> profile_result" where
  "result_of smp sc sh i s =
     \<lparr>r_sample = smp, r_score = sc, r_shared_alleles = sh, r_reference = ref_profile i s\<rparr>"


text \<open>
  A \<open>SearchResult\<close>: the query, the two thresholds and the \<open>defaultdict\<close> from
  cell-line identifier to \<open>CellLineResult\<close>.
\<close>

record search_result =
  sr_query :: profile
  minscore :: rat
  maxhits :: int
  results_by_cell_line :: "(string \<times> cell_line_result) list"

definition SearchResult :: "profile \<Rightarrow> rat \<Rightarrow> int \<Rightarrow> search_result" where
  "SearchResult q ms mh =
     \<lparr>sr_query = q, minscore = ms, maxhits = mh, results_by_cell_line = []\<rparr>"

text \<open>\<open>d[key]\<close> on the \<open>defaultdict\<close>: a missing key has the empty \<open>CellLineResult\<close>.\<close>

definition cell_line :: "search_result \<Rightarrow> string \<Rightarrow> cell_line_result" where
  "cell_line sr key =
     (case map_of (results_by_cell_line sr) key of None \<Rightarrow> [] | Some cl \<Rightarrow> cl)"

definition add_profile_result :: "search_result \<Rightarrow> profile_result \<Rightarrow> error + search_result" where
  "add_profile_result sr result =
     (case profile_identifier (r_reference result) of
        Inl e \<Rightarrow> Inl e
      | Inr key \<Rightarrow>
          Inr (sr\<lparr>results_by_cell_line :=
                    dict_set (results_by_cell_line sr) key (cell_line sr key @ [result])\<rparr>))"

text \<open>What \<open>CellosaurusDB.search\<close> does with the results it computes, one after another.\<close>

fun add_all :: "search_result \<Rightarrow> profile_result list \<Rightarrow> error + search_result" where
  "add_all sr [] = Inr sr"
| "add_all sr (result # results) =
     (case add_profile_result sr result of
        Inl e \<Rightarrow> Inl e
      | Inr sr' \<Rightarrow> add_all sr' results)"

text \<open>
  \<open>ids_by_score\<close> sorts the cell lines by the key \<open>(top_score, top_score_shared_alleles)\<close>,
  in descending order; the keys are computed first, then compared.
\<close>

definition cell_line_key :: "cell_line_result \<Rightarrow> error + rat \<times> nat" where
  "cell_line_key cl =
     (case top_score cl of
        Inl e \<Rightarrow> Inl e
      | Inr t \<Rightarrow> (case top_score_shared_alleles cl of Inl e \<Rightarrow> Inl e | Inr s \<Rightarrow> Inr (t, s)))"

fun with_keys :: "cell_line_result list \<Rightarrow> error + ((rat \<times> nat) \<times> cell_line_result) list" where
  "with_keys [] = Inr []"
| "with_keys (cl # cls) =
     (case cell_line_key cl of
        Inl e \<Rightarrow> Inl e
      | Inr k \<Rightarrow> (case with_keys cls of Inl e \<Rightarrow> Inl e | Inr ks \<Rightarrow> Inr ((k, cl) # ks)))"

definition sorted_results :: "search_result \<Rightarrow> error + cell_line_result list" where
  "sorted_results sr =
     (case with_keys (map snd (results_by_cell_line sr)) of
        Inl e \<Rightarrow> Inl e
      | Inr ks \<Rightarrow> Inr (map snd (py_sorted (\<lambda>a b. fst a < fst b) True ks)))"

text \<open>
  \<open>SearchResult.__iter__\<close>, as the list of what it yields. \<open>ids_by_score\<close> hands over
  the identifier of the next sorted cell line; then the loop checks \<open>maxhits\<close>, looks the
  identifier up again and checks \<open>minscore\<close>. An exception at any step is the result.
\<close>

fun iter_loop :: "search_result \<Rightarrow> nat \<Rightarrow> cell_line_result list \<Rightarrow> error + cell_line_result list" where
  "iter_loop sr n [] = Inr []"
| "iter_loop sr n (res # rest) =
     (case cl_identifier res of
        Inl e \<Rightarrow> Inl e
      | Inr key \<Rightarrow>
          if maxhits sr > 0 \<and> int n \<ge> maxhits sr then Inr []
          else (case top_score (cell_line sr key) of
                  Inl e \<Rightarrow> Inl e
                | Inr t \<Rightarrow>
                    if t < minscore sr then Inr []
                    else (case iter_loop sr (Suc n) rest of
                            Inl e \<Rightarrow> Inl e
                          | Inr ys \<Rightarrow> Inr (cell_line sr key # ys))))"

definition search_iter :: "search_result \<Rightarrow> error + cell_line_result list" where
  "search_iter sr =
     (case sorted_results sr of Inl e \<Rightarrow> Inl e | Inr rs \<Rightarrow> iter_loop sr 0 rs)"

text \<open>The key of a cell line and its top score as plain values (of a cell line that
  has a result), and the cell lines that reach \<open>minscore\<close>.\<close>

definition top_of :: "cell_line_result \<Rightarrow> rat" where
  "top_of cl = Max (set (map r_score cl))"

definition key_of :: "cell_line_result \<Rightarrow> rat \<times> nat" where
  "key_of cl =
     (top_of cl, Max (set (map r_shared_alleles (filter (\<lambda>r. r_score r = top_of cl) cl))))"

definition qualifies :: "search_result \<Rightarrow> cell_line_result \<Rightarrow> bool" where
  "qualifies sr cl = (\<not> top_of cl < minscore sr)"

definition wf_results :: "(string \<times> cell_line_result) list \<Rightarrow> bool" where
  "wf_results d =
     (distinct (map fst d)
      \<and> list_all (\<lambda>(key, cl). cl \<noteq> []
            \<and> list_all (\<lambda>r. profile_identifier (r_reference r) = Inr key) cl) d)"

definition example_results :: "profile_result list" where
  "example_results =
     [result_of ''mock'' (1/2) 3 ''A'' ''ATCC'', result_of ''mock'' (9/10) 3 ''B'' ''ATCC'',
      result_of ''mock'' (1/2) 7 ''A'' ''CCRID'', result_of ''mock'' (1/2) 9 ''C'' ''CCRID'',
      result_of ''mock'' (1/5) 9 ''D'' ''CCRID'']"


chapter \<open>Properties\<close>

section \<open>Scoring\<close>

lemma finite_alleles_of: "finite (alleles_of p ms)"
  by (simp add: alleles_of_def)

lemma shared_le_query: "shared_count q r mode amel \<le> query_count q r mode amel"
  unfolding shared_count_def query_count_def
  by (rule card_mono) (simp_all add: finite_alleles_of)

lemma shared_le_refr: "shared_count q r mode amel \<le> refr_count q r mode amel"
  unfolding shared_count_def refr_count_def
  by (rule card_mono) (simp_all add: finite_alleles_of)

lemma score_unfold:
  assumes "algorithm \<in> {''Tanabe'', ''query'', ''reference''}"
      and "mode \<in> {''intersect'', ''query'', ''reference''}"
  shows "score q r algorithm mode amel =
     (if shared_count q r mode amel > 0 then
        (case (if algorithm = ''Tanabe'' then
                 truediv (2 * shared_count q r mode amel)
                   (query_count q r mode amel + refr_count q r mode amel)
               else if algorithm = ''query'' then
                 truediv (shared_count q r mode amel) (query_count q r mode amel)
               else truediv (shared_count q r mode amel) (refr_count q r mode amel)) of
           Inl e \<Rightarrow> Inl e
         | Inr sc \<Rightarrow> Inr (sc, shared_count q r mode amel))
      else Inr (0, shared_count q r mode amel))"
  using assms unfolding score_def query_count_def refr_count_def shared_count_def Let_def
  by simp

lemma ratio_le_one: "0 < b \<Longrightarrow> a \<le> b \<Longrightarrow> (of_nat a :: rat) / of_nat b \<le> 1"
  by simp

text \<open>
  C7. For every pair of profiles, every valid algorithm and mode and every \<open>amel\<close>,
  \<open>score\<close> returns (it raises nothing, so it never divides by zero) a score between 0
  and 1 together with the shared-allele count \<open>S\<close>; the score is 0 when \<open>S = 0\<close>, and
  when \<open>S > 0\<close> the divisors \<open>Q + R\<close>, \<open>Q\<close> and \<open>R\<close> are all nonzero.
\<close>

theorem score_bounded:
  assumes alg: "algorithm \<in> {''Tanabe'', ''query'', ''reference''}"
      and mode: "mode \<in> {''intersect'', ''query'', ''reference''}"
  shows "\<exists>sc. score q r algorithm mode amel = Inr (sc, shared_count q r mode amel)
           \<and> 0 \<le> sc \<and> sc \<le> 1
           \<and> (shared_count q r mode amel = 0 \<longrightarrow> sc = 0)
           \<and> (0 < shared_count q r mode amel \<longrightarrow>
                 query_count q r mode amel + refr_count q r mode amel \<noteq> 0
                 \<and> query_count q r mode amel \<noteq> 0 \<and> refr_count q r mode amel \<noteq> 0)"
proof (cases "shared_count q r mode amel = 0")
  case True
  then show ?thesis by (simp add: score_unfold [OF alg mode])
next
  case False
  define S where "S = shared_count q r mode amel"
  define Q where "Q = query_count q r mode amel"
  define R where "R = refr_count q r mode amel"
  have S: "0 < S" using False by (simp add: S_def)
  have SQ: "S \<le> Q" and SR: "S \<le> R"
    by (simp_all add: S_def Q_def R_def shared_le_query shared_le_refr)
  have tan: "(of_nat (2 * S) :: rat) / of_nat (Q + R) \<le> 1"
    by (rule ratio_le_one) (use S SQ SR in linarith)+
  have qr: "(of_nat S :: rat) / of_nat Q \<le> 1" "(of_nat S :: rat) / of_nat R \<le> 1"
    by (rule ratio_le_one; use S SQ SR in linarith)+
  show ?thesis
    using S SQ SR tan qr alg
    unfolding score_unfold [OF alg mode] S_def [symmetric] Q_def [symmetric] R_def [symmetric]
    by (auto simp add: truediv_def simp del: of_nat_mult of_nat_add)
qed

theorem score_bounded_witness:
  "''Tanabe'' \<in> {''Tanabe'', ''query'', ''reference''}
   \<and> ''query'' \<in> {''intersect'', ''query'', ''reference''}
   \<and> shared_count two_markers one_marker ''query'' False = 1
   \<and> (\<exists>sc. score two_markers one_marker ''Tanabe'' ''query'' False = Inr (sc, 1)
          \<and> 0 \<le> sc \<and> sc \<le> 1
          \<and> query_count two_markers one_marker ''query'' False \<noteq> 0
          \<and> refr_count two_markers one_marker ''query'' False \<noteq> 0)"
proof -
  have a: "''Tanabe'' \<in> {''Tanabe'', ''query'', ''reference''}" by simp
  have m: "''query'' \<in> {''intersect'', ''query'', ''reference''}" by simp
  have s: "shared_count two_markers one_marker ''query'' False = 1" by code_simp
  show ?thesis
    using score_bounded [OF a m, of two_markers one_marker False] a m s by auto
qed

lemma markers_for_scoring_swap:
  "markers_for_scoring a b ''intersect'' amel = markers_for_scoring b a ''intersect'' amel"
  "markers_for_scoring a b ''query'' amel = markers_for_scoring b a ''reference'' amel"
  "markers_for_scoring a b ''reference'' amel = markers_for_scoring b a ''query'' amel"
  by (simp_all add: markers_for_scoring_def Int_commute)

lemma score_Tanabe_swap:
  assumes "markers_for_scoring a b mode amel = markers_for_scoring b a mode' amel"
      and "mode \<in> {''intersect'', ''query'', ''reference''}"
      and "mode' \<in> {''intersect'', ''query'', ''reference''}"
  shows "score a b ''Tanabe'' mode amel = score b a ''Tanabe'' mode' amel"
proof -
  let ?ms = "markers_for_scoring b a mode' amel"
  have i: "alleles_of a ?ms \<inter> alleles_of b ?ms = alleles_of b ?ms \<inter> alleles_of a ?ms"
    by (rule Int_commute)
  show ?thesis
    using assms(2,3) unfolding score_def Let_def assms(1) i
    by (simp add: add.commute)
qed

text \<open>
  C4, as the code has it. Under \<open>"Tanabe"\<close> the score is symmetric in mode
  \<open>"intersect"\<close>; in mode \<open>"query"\<close> or \<open>"reference"\<close> the marker set follows the
  first or the second argument, so swapping the profiles must swap the mode as well.
  Under the algorithms \<open>"query"\<close> and \<open>"reference"\<close> the score is not symmetric in
  general.
\<close>

theorem score_symmetry:
  "score a b ''Tanabe'' ''intersect'' amel = score b a ''Tanabe'' ''intersect'' amel
   \<and> score a b ''Tanabe'' ''query'' amel = score b a ''Tanabe'' ''reference'' amel
   \<and> score a b ''Tanabe'' ''reference'' amel = score b a ''Tanabe'' ''query'' amel
   \<and> (\<exists>q r. score q r ''query'' ''intersect'' amel \<noteq> score r q ''query'' ''intersect'' amel)
   \<and> (\<exists>q r. score q r ''reference'' ''intersect'' amel
                \<noteq> score r q ''reference'' ''intersect'' amel)"
proof -
  have 1: "score a b ''Tanabe'' ''intersect'' amel = score b a ''Tanabe'' ''intersect'' amel"
    by (rule score_Tanabe_swap) (simp_all add: markers_for_scoring_swap(1))
  have 2: "score a b ''Tanabe'' ''query'' amel = score b a ''Tanabe'' ''reference'' amel"
    by (rule score_Tanabe_swap) (simp_all add: markers_for_scoring_swap(2))
  have 3: "score a b ''Tanabe'' ''reference'' amel = score b a ''Tanabe'' ''query'' amel"
    by (rule score_Tanabe_swap) (simp_all add: markers_for_scoring_swap(3))
  have 4: "score two_alleles one_marker ''query'' ''intersect'' amel
             \<noteq> score one_marker two_alleles ''query'' ''intersect'' amel"
    by (cases amel; simp; code_simp)
  have 5: "score two_alleles one_marker ''reference'' ''intersect'' amel
             \<noteq> score one_marker two_alleles ''reference'' ''intersect'' amel"
    by (cases amel; simp; code_simp)
  from 1 2 3 4 5 show ?thesis by blast
qed

text \<open>
  The claim C4 as stated fails: with \<open>"Tanabe"\<close> and the same mode \<open>"query"\<close> on both
  sides, the two orders of \<open>{"CSF1PO": "13"}\<close> and \<open>{"CSF1PO": "13", "FGA": "24"}\<close>
  score 1 and 2/3.
\<close>

theorem score_symmetry_fails_in_query_mode:
  "score one_marker two_markers ''Tanabe'' ''query'' False = Inr (1, 1)
   \<and> score two_markers one_marker ''Tanabe'' ''query'' False = Inr (2 / 3, 1)"
  by code_simp

section \<open>The marker registry\<close>

lemma lower_char_simps:
  "lower_char CHR ''A'' = CHR ''a''"
  "lower_char CHR ''B'' = CHR ''b''"
  "lower_char CHR ''C'' = CHR ''c''"
  "lower_char CHR ''D'' = CHR ''d''"
  "lower_char CHR ''E'' = CHR ''e''"
  "lower_char CHR ''F'' = CHR ''f''"
  "lower_char CHR ''G'' = CHR ''g''"
  "lower_char CHR ''H'' = CHR ''h''"
  "lower_char CHR ''I'' = CHR ''i''"
  "lower_char CHR ''J'' = CHR ''j''"
  "lower_char CHR ''K'' = CHR ''k''"
  "lower_char CHR ''L'' = CHR ''l''"
  "lower_char CHR ''M'' = CHR ''m''"
  "lower_char CHR ''N'' = CHR ''n''"
  "lower_char CHR ''O'' = CHR ''o''"
  "lower_char CHR ''P'' = CHR ''p''"
  "lower_char CHR ''Q'' = CHR ''q''"
  "lower_char CHR ''R'' = CHR ''r''"
  "lower_char CHR ''S'' = CHR ''s''"
  "lower_char CHR ''T'' = CHR ''t''"
  "lower_char CHR ''U'' = CHR ''u''"
  "lower_char CHR ''V'' = CHR ''v''"
  "lower_char CHR ''W'' = CHR ''w''"
  "lower_char CHR ''X'' = CHR ''x''"
  "lower_char CHR ''Y'' = CHR ''y''"
  "lower_char CHR ''Z'' = CHR ''z''"
  "lower_char CHR ''a'' = CHR ''a''"
  "lower_char CHR ''b'' = CHR ''b''"
  "lower_char CHR ''c'' = CHR ''c''"
  "lower_char CHR ''d'' = CHR ''d''"
  "lower_char CHR ''e'' = CHR ''e''"
  "lower_char CHR ''f'' = CHR ''f''"
  "lower_char CHR ''g'' = CHR ''g''"
  "lower_char CHR ''h'' = CHR ''h''"
  "lower_char CHR ''i'' = CHR ''i''"
  "lower_char CHR ''j'' = CHR ''j''"
  "lower_char CHR ''k'' = CHR ''k''"
  "lower_char CHR ''l'' = CHR ''l''"
  "lower_char CHR ''m'' = CHR ''m''"
  "lower_char CHR ''n'' = CHR ''n''"
  "lower_char CHR ''o'' = CHR ''o''"
  "lower_char CHR ''p'' = CHR ''p''"
  "lower_char CHR ''q'' = CHR ''q''"
  "lower_char CHR ''r'' = CHR ''r''"
  "lower_char CHR ''s'' = CHR ''s''"
  "lower_char CHR ''t'' = CHR ''t''"
  "lower_char CHR ''u'' = CHR ''u''"
  "lower_char CHR ''v'' = CHR ''v''"
  "lower_char CHR ''w'' = CHR ''w''"
  "lower_char CHR ''x'' = CHR ''x''"
  "lower_char CHR ''y'' = CHR ''y''"
  "lower_char CHR ''z'' = CHR ''z''"
  "lower_char CHR ''0'' = CHR ''0''"
  "lower_char CHR ''1'' = CHR ''1''"
  "lower_char CHR ''2'' = CHR ''2''"
  "lower_char CHR ''3'' = CHR ''3''"
  "lower_char CHR ''4'' = CHR ''4''"
  "lower_char CHR ''5'' = CHR ''5''"
  "lower_char CHR ''6'' = CHR ''6''"
  "lower_char CHR ''7'' = CHR ''7''"
  "lower_char CHR ''8'' = CHR ''8''"
  "lower_char CHR ''9'' = CHR ''9''"
  "lower_char CHR '' '' = CHR '' ''"
  "lower_char CHR ''-'' = CHR ''-''"
  by code_simp+

lemmas normal_form_eval = normal_form_def lower_def remove_spaces_def lower_char_simps

lemma scan_species_index:
  "scan_species c t names = scan_index c (map (\<lambda>n. (normal_form n, n, t)) names)"
  by (induction names) simp_all

lemma scan_index_append:
  "scan_index c (xs @ ys) = (case scan_index c xs of Some r \<Rightarrow> Some r | None \<Rightarrow> scan_index c ys)"
  by (induction xs) auto

lemma scan_table_index:
  "scan_table c table
     = scan_index c (concat (map (\<lambda>(t, names). map (\<lambda>n. (normal_form n, n, t)) names) table))"
  by (induction table) (auto simp add: scan_species_index scan_index_append split: option.splits)

lemma registry_index_correct:
  "concat (map (\<lambda>(t, names). map (\<lambda>n. (normal_form n, n, t)) names) valid_names)
     = registry_index"
  by (simp add: valid_names_def registry_index_def normal_form_eval)

lemma standardize_name_index:
  "standardize_name name = scan_index (normal_form name) registry_index"
  by (simp add: standardize_name_def scan_table_index registry_index_correct)

text \<open>
  Evaluating a lookup: the congruence rule keeps the simplifier out of the part of the
  table that the scan has not reached.
\<close>

lemma scan_index_cong: "c = c' \<Longrightarrow> scan_index c xs = scan_index c' xs"
  by simp

lemmas scan_registry = arg_cong [OF registry_index_def, of "scan_index c" for c]


lemma scan_index_member: "scan_index c xs = Some (n, t) \<Longrightarrow> (c, n, t) \<in> set xs"
  by (induction xs) (auto split: if_splits)

lemma registry_index_set:
  "(key, n, t) \<in> set registry_index
     \<longleftrightarrow> (\<exists>names. (t, names) \<in> set valid_names \<and> n \<in> set names \<and> key = normal_form n)"
  unfolding registry_index_correct [symmetric] by auto

lemma standardize_name_Some:
  assumes "standardize_name raw = Some (c, t)"
  shows "\<exists>names. (t, names) \<in> set valid_names \<and> c \<in> set names
           \<and> normal_form c = normal_form raw"
  using scan_index_member [OF assms [unfolded standardize_name_index]]
  by (auto simp add: registry_index_set)



lemma valid_names_taxids: "map fst valid_names = [9606, 10090, 9615]"
  by (simp add: valid_names_def)

lemma standardize_name_taxid:
  assumes "standardize_name raw = Some (c, t)"
  shows "t \<in> {9606, 10090, 9615}"
proof -
  from standardize_name_Some [OF assms] have "t \<in> set (map fst valid_names)" by force
  then show ?thesis by (simp add: valid_names_taxids)
qed

section \<open>Dicts and sets\<close>

lemma map_of_dict_set: "map_of (dict_set d k v) = (map_of d)(k \<mapsto> v)"
  by (induction d) auto

lemma map_fst_dict_set:
  "map fst (dict_set d k v) = (if k \<in> fst ` set d then map fst d else map fst d @ [k])"
  by (induction d) force+

lemma keys_dict_set: "fst ` set (dict_set d k v) = insert k (fst ` set d)"
  using map_fst_dict_set [of d k v, THEN arg_cong, of set]
  by (auto simp del: set_map simp add: set_map [symmetric] split: if_splits)

lemma distinct_dict_set: "distinct (map fst d) \<Longrightarrow> distinct (map fst (dict_set d k v))"
  by (simp add: map_fst_dict_set)

lemma dict_set_entries:
  "e \<in> set (dict_set d k v) \<Longrightarrow> e = (k, v) \<or> e \<in> set d"
  by (induction d) (auto split: if_splits)

lemma dict_set_nonempty: "dict_set d k v \<noteq> []"
  by (cases d) (auto split: if_splits)

lemma set_set_add: "set (set_add x xs) = insert x (set xs)"
  by (auto simp add: set_add_def)

lemma distinct_set_add: "distinct xs \<Longrightarrow> distinct (set_add x xs)"
  by (simp add: set_add_def)

lemma those_None: "those xs = None \<longleftrightarrow> None \<in> set xs"
  by (induction xs) (auto split: option.splits)

lemma those_Some: "those xs = Some ys \<longleftrightarrow> xs = map Some ys"
  by (induction xs arbitrary: ys) (auto split: option.splits)

section \<open>validate_names\<close>

lemma validate_loop_step:
  "validate_loop (name # names) (taxids, valid)
     = validate_loop names (set_add (resolve_taxid name) taxids,
                            dict_set valid name (resolve_canon name))"
  by (auto simp add: resolve_taxid_def resolve_canon_def split: option.splits)

lemma validate_loop_taxids:
  "set (fst (validate_loop names (taxids, valid))) = set taxids \<union> resolve_taxid ` set names"
  by (induction names arbitrary: taxids valid)
     (simp_all add: validate_loop_step set_set_add del: validate_loop.simps(2))

lemma validate_loop_distinct:
  "distinct taxids \<Longrightarrow> distinct (fst (validate_loop names (taxids, valid)))"
  by (induction names arbitrary: taxids valid)
     (simp_all add: validate_loop_step distinct_set_add del: validate_loop.simps(2))

lemma validate_loop_valid:
  "map_of (snd (validate_loop names (taxids, valid))) raw
     = (if raw \<in> set names then Some (resolve_canon raw) else map_of valid raw)"
  by (induction names arbitrary: taxids valid)
     (auto simp add: validate_loop_step map_of_dict_set simp del: validate_loop.simps(2))

lemma validate_loop_keys:
  "fst ` set (snd (validate_loop names (taxids, valid))) = fst ` set valid \<union> set names"
  by (induction names arbitrary: taxids valid)
     (auto simp add: validate_loop_step keys_dict_set simp del: validate_loop.simps(2))

lemma validate_loop_keys_distinct:
  "distinct (map fst valid) \<Longrightarrow> distinct (map fst (snd (validate_loop names (taxids, valid))))"
  by (induction names arbitrary: taxids valid)
     (simp_all add: validate_loop_step distinct_dict_set del: validate_loop.simps(2))

lemma validate_loop_init:
  obtains taxids valid where
    "validate_loop names ([], []) = (taxids, valid)"
    "set taxids = resolve_taxid ` set names" "distinct taxids"
    "distinct (map fst valid)" "fst ` set valid = set names"
    "\<And>raw. map_of valid raw = (if raw \<in> set names then Some (resolve_canon raw) else None)"
proof -
  obtain taxids valid where st: "validate_loop names ([], []) = (taxids, valid)"
    by (cases "validate_loop names ([], [])")
  show thesis
  proof (rule that [OF st])
    show "set taxids = resolve_taxid ` set names"
      using validate_loop_taxids [of names "[]" "[]"] by (simp add: st)
    show "distinct taxids"
      using validate_loop_distinct [of "[]" names "[]"] by (simp add: st)
    show "distinct (map fst valid)"
      using validate_loop_keys_distinct [of "[]" names "[]"] by (simp add: st)
    show "fst ` set valid = set names"
      using validate_loop_keys [of names "[]" "[]"] by (simp add: st)
    show "map_of valid raw = (if raw \<in> set names then Some (resolve_canon raw) else None)" for raw
      using validate_loop_valid [of names "[]" "[]" raw] by (simp add: st)
  qed
qed

lemma resolve_None: "resolve_taxid n = None \<longleftrightarrow> standardize_name n = None"
  "resolve_canon n = None \<longleftrightarrow> standardize_name n = None"
  by (simp_all add: resolve_taxid_def resolve_canon_def)

lemma resolve_Some:
  "standardize_name n = Some (c, t) \<Longrightarrow> resolve_taxid n = Some t \<and> resolve_canon n = Some c"
  by (simp add: resolve_taxid_def resolve_canon_def)

lemma invalid_names_set:
  assumes "distinct (map fst valid)"
  shows "distinct (invalid_names valid)"
    and "set (invalid_names valid) = {n. map_of valid n = Some None}"
proof -
  show "distinct (invalid_names valid)"
    unfolding invalid_names_def using assms by (simp add: distinct_map_filter)
  show "set (invalid_names valid) = {n. map_of valid n = Some None}"
    unfolding invalid_names_def using assms by (force simp add: image_iff)
qed

lemma resolved_props:
  assumes "distinct (map fst valid)"
  shows "distinct (map fst (resolved valid))"
    and "map_of (resolved valid) raw = Some c \<longleftrightarrow> map_of valid raw = Some (Some c)"
    and "None \<notin> snd ` set valid \<Longrightarrow> map fst (resolved valid) = map fst valid"
proof -
  have keys: "set (map fst (resolved d)) \<subseteq> set (map fst d)" for d :: "(string \<times> string option) list"
    by (induction d) (auto simp add: resolved_def List.map_filter_simps split: option.splits)
  show "distinct (map fst (resolved valid))"
    using assms
  proof (induction valid)
    case Nil
    then show ?case by (simp add: resolved_def List.map_filter_simps)
  next
    case (Cons e valid)
    then show ?case
      using keys [of valid]
      by (cases e; cases "snd e")
         (auto simp add: resolved_def List.map_filter_simps)
  qed
  show "map_of (resolved valid) raw = Some c \<longleftrightarrow> map_of valid raw = Some (Some c)"
    using assms
  proof (induction valid)
    case Nil
    then show ?case by (simp add: resolved_def List.map_filter_simps)
  next
    case (Cons e valid)
    obtain k v where e: "e = (k, v)" by (cases e)
    have "map_of (resolved valid) k = None"
      using Cons.prems keys [of valid] by (auto simp add: e map_of_eq_None_iff)
    moreover have "map_of valid k = None"
      using Cons.prems by (auto simp add: e map_of_eq_None_iff)
    ultimately show ?case
      using Cons by (cases v) (auto simp add: e resolved_def List.map_filter_simps)
  qed
  show "None \<notin> snd ` set valid \<Longrightarrow> map fst (resolved valid) = map fst valid"
  proof (induction valid)
    case Nil
    then show ?case by (simp add: resolved_def List.map_filter_simps)
  next
    case (Cons e valid)
    then show ?case
      by (cases e; cases "snd e") (auto simp add: resolved_def List.map_filter_simps)
  qed
qed

lemma taxids_of_iff: "t \<in> taxids_of names \<longleftrightarrow> Some t \<in> resolve_taxid ` set names"
proof
  assume "t \<in> taxids_of names"
  then obtain n where "n \<in> set names" "resolve_taxid n = Some t"
    by (auto simp add: taxids_of_def List.map_filter_def)
  then show "Some t \<in> resolve_taxid ` set names" by (metis image_eqI)
next
  assume "Some t \<in> resolve_taxid ` set names"
  then obtain n where "n \<in> set names" "resolve_taxid n = Some t" by auto
  then show "t \<in> taxids_of names"
    by (force simp add: taxids_of_def List.map_filter_def)
qed

lemma species_of_ok:
  assumes "set ts \<subseteq> {9606, 10090, 9615}"
  shows "\<exists>sp. species_of ts = Inr sp \<and> list_all2 (\<lambda>t s. map_of species_by_taxid t = Some s) ts sp"
  using assms by (induction ts) (auto simp add: species_by_taxid_def)

lemma list_all2_species:
  assumes "list_all2 (\<lambda>t s. map_of species_by_taxid t = Some s) ts sp"
  shows "length sp = length ts"
    and "set sp = {s. \<exists>t \<in> set ts. map_of species_by_taxid t = Some s}"
proof -
  show "length sp = length ts" using assms by (simp add: list_all2_lengthD)
  show "set sp = {s. \<exists>t \<in> set ts. map_of species_by_taxid t = Some s}"
    using assms by (induction rule: list_all2_induct) auto
qed

lemma validate_names_empty: "validate_names [] = Inl (KeyError ''pop from an empty set'')"
  by (simp add: validate_names_def)

lemma validate_names_invalid:
  assumes "\<exists>n \<in> set names. standardize_name n = None"
  shows "\<exists>bad. validate_names names
             = Inl (ValueError (''invalid marker name(s): '' @ py_join '', '' bad))
           \<and> distinct bad \<and> set bad = {n \<in> set names. standardize_name n = None}"
proof -
  obtain taxids valid where st: "validate_loop names ([], []) = (taxids, valid)"
    and tx: "set taxids = resolve_taxid ` set names"
    and dv: "distinct (map fst valid)"
    and mv: "\<And>raw. map_of valid raw
               = (if raw \<in> set names then Some (resolve_canon raw) else None)"
    by (rule validate_loop_init [of names]) blast
  have "None \<in> set taxids"
    using assms unfolding tx by (metis image_eqI resolve_None(1))
  then have "those taxids = None" by (simp add: those_None)
  then have "validate_names names
      = Inl (ValueError (''invalid marker name(s): '' @ py_join '', '' (invalid_names valid)))"
    by (simp add: validate_names_def st)
  moreover have "set (invalid_names valid) = {n \<in> set names. standardize_name n = None}"
    unfolding invalid_names_set(2) [OF dv] by (auto simp add: mv resolve_None split: if_splits)
  ultimately show ?thesis using invalid_names_set(1) [OF dv] by blast
qed

lemma validate_names_resolved:
  assumes all: "\<forall>n \<in> set names. standardize_name n \<noteq> None"
  obtains taxids valid ts where
    "validate_loop names ([], []) = (taxids, valid)" "those taxids = Some ts"
    "distinct ts" "set ts = taxids_of names" "set ts \<subseteq> {9606, 10090, 9615}"
    "distinct (map fst valid)" "fst ` set valid = set names"
    "\<And>raw. map_of valid raw = (if raw \<in> set names then Some (resolve_canon raw) else None)"
proof -
  obtain taxids valid where st: "validate_loop names ([], []) = (taxids, valid)"
    and tx: "set taxids = resolve_taxid ` set names" and dt: "distinct taxids"
    and dv: "distinct (map fst valid)" and kv: "fst ` set valid = set names"
    and mv: "\<And>raw. map_of valid raw
               = (if raw \<in> set names then Some (resolve_canon raw) else None)"
    by (rule validate_loop_init [of names]) blast
  have "None \<notin> set taxids"
    using all unfolding tx image_iff by (metis resolve_None(1))
  then obtain ts where ts: "those taxids = Some ts"
    by (cases "those taxids") (auto simp add: those_None)
  then have m: "taxids = map Some ts" by (simp add: those_Some)
  have d: "distinct ts" using dt unfolding m by (simp add: distinct_map)
  have s: "set ts = taxids_of names"
  proof -
    have "t \<in> set ts \<longleftrightarrow> Some t \<in> set taxids" for t unfolding m by auto
    then show ?thesis unfolding tx by (auto simp add: taxids_of_iff)
  qed
  have k: "set ts \<subseteq> {9606, 10090, 9615}"
  proof
    fix t assume "t \<in> set ts"
    then have "Some t \<in> resolve_taxid ` set names" using s by (simp add: taxids_of_iff)
    then obtain n where "resolve_taxid n = Some t" by force
    then obtain c where "standardize_name n = Some (c, t)"
      by (auto simp add: resolve_taxid_def)
    then show "t \<in> {9606, 10090, 9615}" by (rule standardize_name_taxid)
  qed
  show thesis by (rule that [OF st ts d s k dv kv mv])
qed

lemma validate_names_mixed:
  assumes all: "\<forall>n \<in> set names. standardize_name n \<noteq> None"
      and many: "card (taxids_of names) > 1"
  shows "\<exists>species. validate_names names
            = Inl (ValueError
                (''list of marker names includes markers from different species: ''
                   @ py_join '', '' (sort species)))
           \<and> length species = card (taxids_of names)
           \<and> set species = {s. \<exists>t \<in> taxids_of names. map_of species_by_taxid t = Some s}"
proof -
  obtain taxids valid ts where st: "validate_loop names ([], []) = (taxids, valid)"
    and ts: "those taxids = Some ts" and d: "distinct ts" and s: "set ts = taxids_of names"
    and k: "set ts \<subseteq> {9606, 10090, 9615}"
    by (rule validate_names_resolved [OF all]) blast
  have len: "length ts = card (taxids_of names)"
    using d s by (metis distinct_card)
  obtain sp where sp: "species_of ts = Inr sp"
    and l2: "list_all2 (\<lambda>t s. map_of species_by_taxid t = Some s) ts sp"
    using species_of_ok [OF k] by blast
  have "validate_names names
      = Inl (ValueError (''list of marker names includes markers from different species: ''
               @ py_join '', '' (sort sp)))"
    using many by (simp add: validate_names_def st ts len sp)
  then show ?thesis
    using list_all2_species [OF l2] len s by auto
qed

lemma validate_names_single:
  assumes all: "\<forall>n \<in> set names. standardize_name n \<noteq> None"
      and one: "card (taxids_of names) \<le> 1"
      and ne: "names \<noteq> []"
  shows "\<exists>valid t. validate_names names = Inr (valid, t) \<and> taxids_of names = {t}
           \<and> distinct (map fst valid) \<and> fst ` set valid = set names
           \<and> (\<forall>raw \<in> set names. \<exists>canon. map_of valid raw = Some canon
                  \<and> standardize_name raw = Some (canon, t))"
proof -
  obtain taxids valid ts where st: "validate_loop names ([], []) = (taxids, valid)"
    and ts: "those taxids = Some ts" and d: "distinct ts" and s: "set ts = taxids_of names"
    and dv: "distinct (map fst valid)" and kv: "fst ` set valid = set names"
    and mv: "\<And>raw. map_of valid raw
               = (if raw \<in> set names then Some (resolve_canon raw) else None)"
    by (rule validate_names_resolved [OF all]) blast
  have len: "length ts = card (taxids_of names)"
    using d s by (metis distinct_card)
  obtain n0 where n0: "n0 \<in> set names" using ne by (cases names) auto
  then have "standardize_name n0 \<noteq> None" using all by blast
  then obtain c0 t0 where "standardize_name n0 = Some (c0, t0)"
    by (cases "standardize_name n0") auto
  then have "t0 \<in> taxids_of names"
    using n0 by (auto simp add: taxids_of_iff resolve_taxid_def image_iff intro!: bexI [of _ n0])
  then have "ts \<noteq> []" using s by auto
  then have "length ts = 1" using one len by (cases ts) auto
  then obtain t where t: "ts = [t]"
    by (auto simp add: length_Suc_conv)
  have tx: "taxids_of names = {t}" using s t by simp
  have res: "validate_names names = Inr (resolved valid, t)"
    by (simp add: validate_names_def st ts t)
  have noNone: "None \<notin> snd ` set valid"
  proof
    assume "None \<in> snd ` set valid"
    then obtain raw where r: "(raw, None) \<in> set valid" by force
    then have "map_of valid raw = Some None" using dv by simp
    moreover have "raw \<in> set names" using r kv by force
    ultimately show False using all by (auto simp add: mv resolve_None)
  qed
  have keys: "fst ` set (resolved valid) = set names"
    using resolved_props(3) [OF dv noNone] kv
    by (metis list.set_map)
  have each: "\<exists>canon. map_of (resolved valid) raw = Some canon
                \<and> standardize_name raw = Some (canon, t)" if "raw \<in> set names" for raw
  proof -
    have "standardize_name raw \<noteq> None" using all that by blast
    then obtain c t' where c: "standardize_name raw = Some (c, t')"
      by (cases "standardize_name raw") auto
    then have "t' \<in> taxids_of names"
      using that
      by (auto simp add: taxids_of_iff resolve_taxid_def image_iff intro!: bexI [of _ raw])
    then have "t' = t" using tx by simp
    moreover have "map_of valid raw = Some (Some c)"
      using that c by (simp add: mv resolve_canon_def)
    ultimately show ?thesis
      using c resolved_props(2) [OF dv, of raw c] by simp
  qed
  show ?thesis
    using res tx resolved_props(1) [OF dv] keys each by blast
qed

text \<open>
  C9, for a non-empty iterable of marker names. If a name is unresolvable,
  \<open>validate_names\<close> raises the \<open>ValueError\<close> whose message lists every unresolvable
  raw name, each once. If all names resolve and they span more than one species, it
  raises the \<open>ValueError\<close> whose message lists the name of every species involved,
  sorted. Otherwise it returns the mapping from every raw name to its canonical name
  together with the one species identifier all names resolve to.
\<close>

theorem validate_names_cases:
  assumes "names \<noteq> []"
  shows "if \<exists>n \<in> set names. standardize_name n = None then
           \<exists>bad. validate_names names
                   = Inl (ValueError (''invalid marker name(s): '' @ py_join '', '' bad))
                 \<and> distinct bad \<and> set bad = {n \<in> set names. standardize_name n = None}
         else if card (taxids_of names) > 1 then
           \<exists>species. validate_names names
                   = Inl (ValueError
                       (''list of marker names includes markers from different species: ''
                          @ py_join '', '' (sort species)))
                 \<and> length species = card (taxids_of names)
                 \<and> set species
                     = {s. \<exists>t \<in> taxids_of names. map_of species_by_taxid t = Some s}
         else
           \<exists>valid t. validate_names names = Inr (valid, t) \<and> taxids_of names = {t}
                 \<and> distinct (map fst valid) \<and> fst ` set valid = set names
                 \<and> (\<forall>raw \<in> set names. \<exists>canon. map_of valid raw = Some canon
                        \<and> standardize_name raw = Some (canon, t))"
proof (cases "\<exists>n \<in> set names. standardize_name n = None")
  case True
  show ?thesis
    unfolding if_P [OF True] by (rule validate_names_invalid [OF True])
next
  case False
  then have all: "\<forall>n \<in> set names. standardize_name n \<noteq> None" by simp
  show ?thesis
  proof (cases "card (taxids_of names) > 1")
    case True
    show ?thesis
      unfolding if_not_P [OF False] if_P [OF True]
      by (rule validate_names_mixed [OF all True])
  next
    case many: False
    then have one: "card (taxids_of names) \<le> 1" by simp
    show ?thesis
      unfolding if_not_P [OF False] if_not_P [OF many]
      by (rule validate_names_single [OF all one assms])
  qed
qed

lemmas standardize_eval =
  standardize_name_index normal_form_eval scan_registry

text \<open>
  The claim C9 as stated fails on the empty iterable: no name is unresolvable and no two
  species are involved, yet nothing is returned; \<open>taxids.pop()\<close> raises \<open>KeyError\<close>.
\<close>

theorem validate_names_empty_iterable:
  "validate_names [] = Inl (KeyError ''pop from an empty set'')"
  by (simp add: validate_names_def)

theorem validate_names_cases_witness:
  "[''PENTAD'', ''fgA''] \<noteq> []
   \<and> (\<exists>valid. validate_names [''PENTAD'', ''fgA''] = Inr (valid, 9606)
         \<and> map_of valid ''PENTAD'' = Some ''Penta D'' \<and> map_of valid ''fgA'' = Some ''FGA'')"
proof -
  have s1: "standardize_name ''PENTAD'' = Some (''Penta D'', 9606)"
    by (simp add: standardize_eval cong: scan_index_cong)
  have s2: "standardize_name ''fgA'' = Some (''FGA'', 9606)"
    by (simp add: standardize_eval cong: scan_index_cong)
  have ne: "[''PENTAD'', ''fgA''] \<noteq> []" by simp
  have tx: "taxids_of [''PENTAD'', ''fgA''] = {9606}"
    by (simp add: taxids_of_def List.map_filter_simps resolve_taxid_def s1 s2)
  from validate_names_cases [OF ne] show ?thesis
    by (simp add: s1 s2 tx) force
qed

section \<open>Allele strings\<close>

lemma split_comma_nonempty: "split_comma s \<noteq> []"
  by (induction s) (auto split: list.splits)

lemma split_comma_tokens:
  "w \<in> set (split_comma s) \<Longrightarrow> CHR '','' \<notin> set w \<and> set w \<subseteq> set s"
proof (induction s arbitrary: w)
  case Nil
  then show ?case by simp
next
  case (Cons c cs)
  obtain v vs where sp: "split_comma cs = v # vs"
    using split_comma_nonempty [of cs] by (cases "split_comma cs") auto
  have v: "CHR '','' \<notin> set v \<and> set v \<subseteq> set cs"
    and vs: "\<And>u. u \<in> set vs \<Longrightarrow> CHR '','' \<notin> set u \<and> set u \<subseteq> set cs"
    using Cons.IH sp by auto
  show ?case
  proof (cases "c = CHR '',''")
    case True
    then show ?thesis using Cons.prems Cons.IH by auto
  next
    case False
    then have "w = c # v \<or> w \<in> set vs" using Cons.prems sp by simp
    then show ?thesis using v vs False by auto
  qed
qed






lemma parse_allele_string_wf: "wf_alleles (parse_allele_string s)"
proof -
  have "CHR '' '' \<notin> set a \<and> CHR '','' \<notin> set a"
    if "a \<in> set (split_comma (remove_spaces s))" for a
    using split_comma_tokens [OF that] by (auto simp add: remove_spaces_def)
  then show ?thesis
    by (auto simp add: wf_alleles_def parse_allele_string_def list_all_iff split_comma_nonempty)
qed

lemma sort_nonempty: "as \<noteq> [] \<Longrightarrow> sort as \<noteq> []"
  by (metis length_0_conv length_sort)

lemma wf_alleles_sort: "wf_alleles as \<Longrightarrow> wf_alleles (sort as)"
  by (auto simp add: wf_alleles_def list_all_iff sort_nonempty)


section \<open>Profile construction\<close>

lemma validate_names_Inr:
  assumes "validate_names names = Inr (valid, t)"
  shows "names \<noteq> []" and "fst ` set valid = set names"
    and "\<forall>raw \<in> set names. \<exists>canon. map_of valid raw = Some canon
            \<and> standardize_name raw = Some (canon, t)"
proof -
  have ne: "names \<noteq> []"
    using assms validate_names_empty by auto
  have all: "\<forall>n \<in> set names. standardize_name n \<noteq> None"
  proof (rule ccontr)
    assume "\<not> (\<forall>n \<in> set names. standardize_name n \<noteq> None)"
    then have "\<exists>n \<in> set names. standardize_name n = None"
      by (simp del: not_None_eq)
    from validate_names_invalid [OF this] show False using assms by auto
  qed
  have one: "card (taxids_of names) \<le> 1"
    using assms validate_names_mixed [OF all] by (cases "card (taxids_of names) > 1") auto
  from validate_names_single [OF all one ne] assms
  show "names \<noteq> []" and "fst ` set valid = set names"
    and "\<forall>raw \<in> set names. \<exists>canon. map_of valid raw = Some canon
            \<and> standardize_name raw = Some (canon, t)"
    using ne by auto
qed

lemma init_loop_Inr:
  "init_loop names als acc = Inr d \<Longrightarrow>
     fst ` set d = fst ` set acc \<union> {c. \<exists>raw \<in> fst ` set als. map_of names raw = Some c}
     \<and> (distinct (map fst acc) \<longrightarrow> distinct (map fst d))
     \<and> ((\<forall>e \<in> set acc. wf_alleles (snd e)) \<longrightarrow> (\<forall>e \<in> set d. wf_alleles (snd e)))
     \<and> (acc \<noteq> [] \<or> als \<noteq> [] \<longrightarrow> d \<noteq> [])
     \<and> (\<forall>raw \<in> fst ` set als. map_of names raw \<noteq> None)"
proof (induction als arbitrary: acc)
  case Nil
  then show ?case by simp
next
  case (Cons a rest)
  obtain marker marker_alleles where a: "a = (marker, marker_alleles)" by (cases a)
  from Cons.prems obtain canon s where
    c: "map_of names marker = Some canon" and s: "marker_alleles = JStr s"
    and r: "init_loop names rest (dict_set acc canon (parse_allele_string s)) = Inr d"
    by (auto simp add: a split: option.splits json.splits)
  let ?acc = "dict_set acc canon (parse_allele_string s)"
  note IH = Cons.IH [OF r]
  have wf: "(\<forall>e \<in> set acc. wf_alleles (snd e)) \<longrightarrow> (\<forall>e \<in> set ?acc. wf_alleles (snd e))"
  proof (intro impI ballI)
    fix e assume old: "\<forall>e \<in> set acc. wf_alleles (snd e)" and "e \<in> set ?acc"
    then have "e = (canon, parse_allele_string s) \<or> e \<in> set acc"
      by (rule_tac dict_set_entries)
    then show "wf_alleles (snd e)"
      using old parse_allele_string_wf by auto
  qed
  have k: "fst ` set d
      = fst ` set acc \<union> {c. \<exists>raw \<in> fst ` set (a # rest). map_of names raw = Some c}"
    using IH c by (auto simp add: keys_dict_set a)
  have d: "distinct (map fst acc) \<longrightarrow> distinct (map fst d)"
    using IH by (simp add: distinct_dict_set)
  have n: "d \<noteq> []" using IH by (simp add: dict_set_nonempty)
  have l: "\<forall>raw \<in> fst ` set (a # rest). map_of names raw \<noteq> None"
    using IH c by (auto simp add: a)
  have w: "(\<forall>e \<in> set acc. wf_alleles (snd e)) \<longrightarrow> (\<forall>e \<in> set d. wf_alleles (snd e))"
    using wf conjunct1 [OF conjunct2 [OF conjunct2 [OF IH]]] by (intro impI) (rule mp, assumption, rule mp, assumption+)
  show ?case
    by (intro conjI impI) (use k d w n l in simp_all)
qed

lemma Profile_init_Inr:
  assumes "Profile_init als m = Inr p"
  obtains names where
    "validate_names (map fst als) = Inr (names, taxid p)"
    "init_loop names als [] = Inr (alleles p)" "meta p = m"
  using assms unfolding Profile_init_def
  by (auto split: sum.splits prod.splits)

lemma Profile_init_props:
  assumes "Profile_init als m = Inr p"
  shows "als \<noteq> []" and "alleles p \<noteq> []" and "meta p = m"
    and "distinct (map fst (alleles p))"
    and "\<forall>e \<in> set (alleles p). wf_alleles (snd e)"
    and "\<forall>raw \<in> fst ` set als. \<exists>canon \<in> markers p. standardize_name raw = Some (canon, taxid p)"
    and "\<forall>k \<in> markers p. \<exists>raw \<in> fst ` set als. standardize_name raw = Some (k, taxid p)"
proof -
  obtain names where v: "validate_names (map fst als) = Inr (names, taxid p)"
    and l: "init_loop names als [] = Inr (alleles p)" and m: "meta p = m"
    using assms by (rule Profile_init_Inr)
  note V = validate_names_Inr [OF v]
  note L = init_loop_Inr [OF l]
  have keys: "markers p = {c. \<exists>raw \<in> fst ` set als. map_of names raw = Some c}"
    using L by (simp add: markers_def)
  have res: "\<exists>canon. map_of names raw = Some canon \<and> standardize_name raw = Some (canon, taxid p)"
    if "raw \<in> fst ` set als" for raw
    using V(3) that by auto
  show "als \<noteq> []" using V(1) by auto
  then show "alleles p \<noteq> []" using L by simp
  show "meta p = m" by (rule m)
  show "distinct (map fst (alleles p))" using L by simp
  show "\<forall>e \<in> set (alleles p). wf_alleles (snd e)" using L by simp
  show "\<forall>raw \<in> fst ` set als. \<exists>canon \<in> markers p. standardize_name raw = Some (canon, taxid p)"
  proof
    fix raw assume r: "raw \<in> fst ` set als"
    from res [OF r] obtain canon where c: "map_of names raw = Some canon"
      and s: "standardize_name raw = Some (canon, taxid p)" by blast
    have "canon \<in> markers p" unfolding keys using r c by blast
    then show "\<exists>canon \<in> markers p. standardize_name raw = Some (canon, taxid p)"
      using s by blast
  qed
  show "\<forall>k \<in> markers p. \<exists>raw \<in> fst ` set als. standardize_name raw = Some (k, taxid p)"
  proof
    fix k assume "k \<in> markers p"
    then obtain raw where r: "raw \<in> fst ` set als" and c: "map_of names raw = Some k"
      unfolding keys by blast
    from res [OF r] c have "standardize_name raw = Some (k, taxid p)" by simp
    then show "\<exists>raw \<in> fst ` set als. standardize_name raw = Some (k, taxid p)"
      using r by blast
  qed
qed

lemma Profile_init_empty: "Profile_init [] m = Inl (KeyError ''pop from an empty set'')"
  by (simp add: Profile_init_def validate_names_empty)

text \<open>
  C10. A profile that \<open>Profile\<close> has built has at least one marker; every marker key is
  a name of the registry, all keys from the list of one species, whose identifier is
  the profile's \<open>taxid\<close>; every key given resolves to that species and to one of the
  profile's markers. Building a profile from the empty mapping fails with the
  \<open>KeyError\<close> of \<open>taxids.pop()\<close>.
\<close>

theorem Profile_init_invariant:
  "(Profile_init als m = Inr p \<longrightarrow>
      markers p \<noteq> {}
      \<and> (\<exists>names. (taxid p, names) \<in> set valid_names \<and> markers p \<subseteq> set names)
      \<and> taxid p \<in> {9606, 10090, 9615}
      \<and> (\<forall>raw \<in> fst ` set als. \<exists>canon \<in> markers p.
             standardize_name raw = Some (canon, taxid p)))
   \<and> Profile_init [] m = Inl (KeyError ''pop from an empty set'')"
proof (intro conjI impI)
  assume a: "Profile_init als m = Inr p"
  note P = Profile_init_props [OF a]
  show ne: "markers p \<noteq> {}" using P(2) by (simp add: markers_def)
  then obtain k where k: "k \<in> markers p" by blast
  then obtain raw where "standardize_name raw = Some (k, taxid p)" using P(7) by blast
  then show "taxid p \<in> {9606, 10090, 9615}" by (rule standardize_name_taxid)
  obtain names0 where n0: "(taxid p, names0) \<in> set valid_names"
    using standardize_name_Some [OF \<open>standardize_name raw = Some (k, taxid p)\<close>] by blast
  have "markers p \<subseteq> set names0"
  proof
    fix c assume "c \<in> markers p"
    then obtain r where "standardize_name r = Some (c, taxid p)" using P(7) by blast
    from standardize_name_Some [OF this] obtain names1 where
      "(taxid p, names1) \<in> set valid_names" "c \<in> set names1" by blast
    moreover have "names1 = names0"
      by (rule eq_key_imp_eq_value [OF _ \<open>(taxid p, names1) \<in> set valid_names\<close> n0])
         (simp add: valid_names_taxids)
    ultimately show "c \<in> set names0" by simp
  qed
  with n0 show "\<exists>names. (taxid p, names) \<in> set valid_names \<and> markers p \<subseteq> set names" by blast
  show "\<forall>raw \<in> fst ` set als. \<exists>canon \<in> markers p. standardize_name raw = Some (canon, taxid p)"
    by (rule P(6))
next
  show "Profile_init [] m = Inl (KeyError ''pop from an empty set'')"
    by (rule Profile_init_empty)
qed

lemma Profile_init_two_alleles:
  "Profile_init [(''csf1po'', JStr ''13, 14'')] JNull = Inr two_alleles"
proof -
  have s: "standardize_name ''csf1po'' = Some (''CSF1PO'', 9606)"
    by (simp add: standardize_eval cong: scan_index_cong)
  have v: "validate_names [''csf1po''] = Inr ([(''csf1po'', ''CSF1PO'')], 9606)"
    by (simp add: validate_names_def s set_add_def resolved_def List.map_filter_simps)
  show ?thesis
    by (simp add: Profile_init_def v parse_allele_string_def remove_spaces_def two_alleles_def)
qed

theorem Profile_init_invariant_witness:
  "Profile_init [(''csf1po'', JStr ''13, 14'')] JNull = Inr two_alleles
   \<and> markers two_alleles \<noteq> {}
   \<and> taxid two_alleles \<in> {9606, 10090, 9615}
   \<and> (\<exists>canon \<in> markers two_alleles.
          standardize_name ''csf1po'' = Some (canon, taxid two_alleles))"
  using Profile_init_invariant [of "[(''csf1po'', JStr ''13, 14'')]" JNull two_alleles]
    Profile_init_two_alleles
  by simp

section \<open>Scoring a profile against itself\<close>

lemma set_profile_iter:
  "set (profile_iter p) = {(m, a). \<exists>as. (m, as) \<in> set (alleles p) \<and> a \<in> set as}"
  by (auto simp add: profile_iter_def)

lemma alleles_of_empty_iff:
  assumes "\<forall>e \<in> set (alleles p). snd e \<noteq> []"
  shows "alleles_of p ms = {} \<longleftrightarrow> ms \<inter> markers p = {}"
proof
  assume e: "alleles_of p ms = {}"
  show "ms \<inter> markers p = {}"
  proof (rule ccontr)
    assume "ms \<inter> markers p \<noteq> {}"
    then obtain k as where k: "k \<in> ms" "(k, as) \<in> set (alleles p)"
      by (auto simp add: markers_def)
    then have "as \<noteq> []" using assms by force
    then obtain a where "a \<in> set as" by (cases as) auto
    then have "(k, a) \<in> alleles_of p ms"
      using k by (auto simp add: alleles_of_def set_profile_iter)
    then show False using e by simp
  qed
next
  assume "ms \<inter> markers p = {}"
  then show "alleles_of p ms = {}"
    by (force simp add: alleles_of_def set_profile_iter markers_def)
qed

lemma markers_for_scoring_self:
  "markers_for_scoring p p ''intersect'' amel
     = (if amel then markers p else markers p - {''Amelogenin''})"
  by (auto simp add: markers_for_scoring_def)

text \<open>
  C2, as the code has it. Scoring a profile against itself under \<open>"Tanabe"\<close> and
  \<open>"intersect"\<close> returns as shared-allele count the number \<open>n\<close> of (marker, allele)
  pairs of the profile at the evaluated markers, and the score 1 when \<open>n > 0\<close>; when
  \<open>n = 0\<close> the score is 0. For a profile that \<open>Profile\<close> has built, \<open>n = 0\<close> exactly
  when there is no evaluated marker, and that is exactly when the only marker of the
  profile is Amelogenin and \<open>amel\<close> is false.
\<close>

theorem score_self:
  "score p p ''Tanabe'' ''intersect'' amel
     = Inr (if query_count p p ''intersect'' amel = 0 then 0 else 1,
            query_count p p ''intersect'' amel)
   \<and> (Profile_init als m = Inr p \<longrightarrow>
        (query_count p p ''intersect'' amel = 0
           \<longleftrightarrow> markers_for_scoring p p ''intersect'' amel = {})
        \<and> (markers_for_scoring p p ''intersect'' amel = {}
           \<longleftrightarrow> markers p = {''Amelogenin''} \<and> \<not> amel))"
proof (intro conjI impI)
  show "score p p ''Tanabe'' ''intersect'' amel
     = Inr (if query_count p p ''intersect'' amel = 0 then 0 else 1,
            query_count p p ''intersect'' amel)"
    by (simp add: score_def Let_def truediv_def query_count_def)
next
  assume a: "Profile_init als m = Inr p"
  have ne: "\<forall>e \<in> set (alleles p). snd e \<noteq> []"
    using Profile_init_props(5) [OF a] by (auto simp add: wf_alleles_def)
  let ?ms = "markers_for_scoring p p ''intersect'' amel"
  have sub: "?ms \<inter> markers p = ?ms"
    by (auto simp add: markers_for_scoring_self)
  have "query_count p p ''intersect'' amel = 0 \<longleftrightarrow> alleles_of p ?ms = {}"
    by (simp add: query_count_def finite_alleles_of)
  then show "query_count p p ''intersect'' amel = 0 \<longleftrightarrow> ?ms = {}"
    using alleles_of_empty_iff [OF ne, of ?ms] sub by simp
next
  assume a: "Profile_init als m = Inr p"
  have "markers p \<noteq> {}"
    using Profile_init_props(2) [OF a] by (simp add: markers_def)
  then show "markers_for_scoring p p ''intersect'' amel = {}
               \<longleftrightarrow> markers p = {''Amelogenin''} \<and> \<not> amel"
    unfolding markers_for_scoring_self by (cases amel) auto
qed

lemma Profile_init_amel_only:
  "Profile_init [(''Amelogenin'', JStr ''X'')] JNull = Inr amel_only"
proof -
  have s: "standardize_name ''Amelogenin'' = Some (''Amelogenin'', 9606)"
    by (simp add: standardize_eval cong: scan_index_cong)
  have v: "validate_names [''Amelogenin''] = Inr ([(''Amelogenin'', ''Amelogenin'')], 9606)"
    by (simp add: validate_names_def s set_add_def resolved_def List.map_filter_simps)
  show ?thesis
    by (simp add: Profile_init_def v parse_allele_string_def remove_spaces_def amel_only_def)
qed

theorem score_self_witness:
  "Profile_init [(''csf1po'', JStr ''13, 14'')] JNull = Inr two_alleles
   \<and> markers_for_scoring two_alleles two_alleles ''intersect'' False \<noteq> {}
   \<and> score two_alleles two_alleles ''Tanabe'' ''intersect'' False = Inr (1, 2)
   \<and> markers_for_scoring amel_only amel_only ''intersect'' True \<noteq> {}
   \<and> query_count amel_only amel_only ''intersect'' True \<noteq> 0
   \<and> (\<exists>n. score amel_only amel_only ''Tanabe'' ''intersect'' True = Inr (1, n))"
proof -
  have q: "query_count two_alleles two_alleles ''intersect'' False = 2"
    by code_simp
  have i: "Profile_init [(''Amelogenin'', JStr ''X'')] JNull = Inr amel_only"
    by (simp add: Profile_init_amel_only)
  from score_self [of two_alleles False "[(''csf1po'', JStr ''13, 14'')]" JNull]
  have 1: "markers_for_scoring two_alleles two_alleles ''intersect'' False \<noteq> {}
           \<and> score two_alleles two_alleles ''Tanabe'' ''intersect'' False = Inr (1, 2)"
    by (simp add: q Profile_init_two_alleles)
  from score_self [of amel_only True "[(''Amelogenin'', JStr ''X'')]" JNull]
  have 2: "markers_for_scoring amel_only amel_only ''intersect'' True \<noteq> {}
           \<and> query_count amel_only amel_only ''intersect'' True \<noteq> 0
           \<and> (\<exists>n. score amel_only amel_only ''Tanabe'' ''intersect'' True = Inr (1, n))"
    by (simp add: i)
  from 1 2 show ?thesis by (simp add: Profile_init_two_alleles)
qed

text \<open>
  The claim C2 as stated fails: the profile of \<open>{"Amelogenin": "X"}\<close> scored against
  itself without Amelogenin has no evaluated marker, and its score is 0, not 1.
\<close>

theorem score_self_amel_only:
  "Profile_init [(''Amelogenin'', JStr ''X'')] JNull = Inr amel_only
   \<and> score amel_only amel_only ''Tanabe'' ''intersect'' False = Inr (0, 0)"
proof -
  have "score amel_only amel_only ''Tanabe'' ''intersect'' False = Inr (0, 0)"
    by code_simp
  with Profile_init_amel_only show ?thesis by simp
qed


section \<open>Saving and reloading a database\<close>










section \<open>Duplicate metadata lines in a flat-file record\<close>

lemma split_space_once_key:
  assumes "split_space_once line = [key, v]" and "line = c # rest" and "\<not> is_space c"
  shows "key \<noteq> [] \<and> hd key = c"
  using assms by (auto simp add: split_space_once_def Let_def split: if_splits)

lemma meta_line_key:
  assumes "startswith line ''ID'' \<or> startswith line ''AC'' \<or> startswith line ''SY''"
      and "split_space_once line = [key, v]"
  shows "key \<notin> meta_keys"
proof (cases line)
  case Nil
  then show ?thesis using assms(1) by (simp add: startswith_def)
next
  case (Cons c rest)
  have c: "c \<in> {CHR ''I'', CHR ''A'', CHR ''S''}"
    using assms(1) by (auto simp add: startswith_def Cons)
  then have "\<not> is_space c" by (auto simp add: is_space_def)
  from split_space_once_key [OF assms(2) Cons this] have "key \<noteq> []" "hd key = c" by simp_all
  then show ?thesis using c by (auto simp add: meta_keys_def)
qed

lemma append_to_keys:
  assumes "append_to d key v = Inr d'"
  shows "fst ` set d' = fst ` set d"
proof -
  from assms obtain xs where m: "map_of d key = Some (JList xs)"
    and d': "d' = dict_set d key (JList (xs @ [v]))"
    by (auto simp add: append_to_def split: option.splits json.splits)
  from m have "key \<in> fst ` set d" by (metis domI dom_map_of_conv_image_fst)
  then show ?thesis unfolding d' keys_dict_set by blast
qed

lemma parse_meta_attribute:
  assumes "startswith line ''ID'' \<or> startswith line ''AC'' \<or> startswith line ''SY''"
  shows "parse_meta e line =
        (case split_space_once line of
           [key, v] \<Rightarrow>
             if key \<in> fst ` set (entry_meta e) then Inl (AssertionError key)
             else (case map_of ATTRIBUTES key of
                     None \<Rightarrow> Inl (KeyError key)
                   | Some attribute \<Rightarrow>
                       Inr (e\<lparr>entry_meta := dict_set (entry_meta e) attribute (JStr v)\<rparr>))
         | _ \<Rightarrow> Inl (ValueError ''not enough values to unpack''))"
  unfolding parse_meta_def using assms by (simp only: if_True)

lemma parse_meta_organism:
  assumes "\<not> (startswith line ''ID'' \<or> startswith line ''AC'' \<or> startswith line ''SY'')"
      and "startswith line ''OX''"
  shows "parse_meta e line =
        (case match_OX line of
           None \<Rightarrow> Inl (ValueError (''cannot parse species of origin: '' @ line))
         | Some (digits, organism) \<Rightarrow>
             (let m = (if ''taxid'' \<notin> fst ` set (entry_meta e)
                       then dict_set (dict_set (entry_meta e) ''taxid'' (JList []))
                              ''organism'' (JList [])
                       else entry_meta e)
              in case append_to m ''taxid'' (JInt (int (int_of_digits digits))) of
                   Inl err \<Rightarrow> Inl err
                 | Inr m' \<Rightarrow>
                     (case append_to m' ''organism'' (JStr organism) of
                        Inl err \<Rightarrow> Inl err
                      | Inr m'' \<Rightarrow> Inr (e\<lparr>entry_meta := m''\<rparr>))))"
  unfolding parse_meta_def using assms by (simp only: if_True if_False)

lemma parse_meta_other:
  assumes "\<not> (startswith line ''ID'' \<or> startswith line ''AC'' \<or> startswith line ''SY'')"
      and "\<not> startswith line ''OX''"
  shows "parse_meta e line = Inr e"
  unfolding parse_meta_def using assms by (simp only: if_False)

lemma append_to_no_assertion: "append_to d key v \<noteq> Inl (AssertionError k)"
  by (simp add: append_to_def split: option.splits json.splits)

lemma parse_meta_no_assertion:
  assumes "fst ` set (entry_meta e) \<subseteq> meta_keys"
  shows "parse_meta e line \<noteq> Inl (AssertionError k)"
proof (cases "startswith line ''ID'' \<or> startswith line ''AC'' \<or> startswith line ''SY''")
  case True
  show ?thesis
  proof (cases "\<exists>key v. split_space_once line = [key, v]")
    case two: True
    then obtain key v where kv: "split_space_once line = [key, v]" by blast
    have "key \<notin> fst ` set (entry_meta e)"
      using meta_line_key [OF True kv] assms by blast
    then show ?thesis
      unfolding parse_meta_attribute [OF True] kv
      by (simp split: option.splits)
  next
    case False
    then show ?thesis
      unfolding parse_meta_attribute [OF True]
      by (simp split: list.splits)
  qed
next
  case False
  show ?thesis
  proof (cases "startswith line ''OX''")
    case ox: True
    show ?thesis
    proof (cases "match_OX line")
      case None
      then show ?thesis unfolding parse_meta_organism [OF False ox] by simp
    next
      case (Some g)
      obtain digits organism where g: "g = (digits, organism)" by (cases g)
      define m0 where "m0 = (if ''taxid'' \<notin> fst ` set (entry_meta e)
                       then dict_set (dict_set (entry_meta e) ''taxid'' (JList []))
                              ''organism'' (JList [])
                       else entry_meta e)"
      have pm: "parse_meta e line =
          (case append_to m0 ''taxid'' (JInt (int (int_of_digits digits))) of
             Inl err \<Rightarrow> Inl err
           | Inr m' \<Rightarrow>
               (case append_to m' ''organism'' (JStr organism) of
                  Inl err \<Rightarrow> Inl err
                | Inr m'' \<Rightarrow> Inr (e\<lparr>entry_meta := m''\<rparr>)))"
        unfolding parse_meta_organism [OF False ox] Some g Let_def m0_def by simp
      show ?thesis
      proof (cases "append_to m0 ''taxid'' (JInt (int (int_of_digits digits)))")
        case (Inl err)
        then show ?thesis
          using append_to_no_assertion [of m0 "''taxid''" "JInt (int (int_of_digits digits))" k]
          by (auto simp add: pm)
      next
        case (Inr m')
        show ?thesis
        proof (cases "append_to m' ''organism'' (JStr organism)")
          case (Inl err)
          then show ?thesis
            using append_to_no_assertion [of m' "''organism''" "JStr organism" k]
            by (auto simp add: pm Inr)
        next
          case m'': (Inr m'')
          show ?thesis by (simp add: pm Inr m'')
        qed
      qed
    qed
  next
    case other: False
    show ?thesis unfolding parse_meta_other [OF False other] by simp
  qed
qed

lemma parse_meta_keys:
  assumes "fst ` set (entry_meta e) \<subseteq> meta_keys" and "parse_meta e line = Inr e'"
  shows "fst ` set (entry_meta e') \<subseteq> meta_keys"
proof (cases "startswith line ''ID'' \<or> startswith line ''AC'' \<or> startswith line ''SY''")
  case True
  from assms(2) [unfolded parse_meta_attribute [OF True]]
  obtain key v attribute where "map_of ATTRIBUTES key = Some attribute"
    and e': "e' = e\<lparr>entry_meta := dict_set (entry_meta e) attribute (JStr v)\<rparr>"
    by (auto split: list.splits option.splits if_splits)
  then have "attribute \<in> meta_keys"
    by (auto simp add: ATTRIBUTES_def meta_keys_def split: if_splits)
  then show ?thesis using assms(1) by (simp add: e' keys_dict_set)
next
  case False
  show ?thesis
  proof (cases "startswith line ''OX''")
    case ox: True
    let ?m = "if ''taxid'' \<notin> fst ` set (entry_meta e)
              then dict_set (dict_set (entry_meta e) ''taxid'' (JList [])) ''organism'' (JList [])
              else entry_meta e"
    have m: "fst ` set ?m \<subseteq> meta_keys"
      using assms(1) by (auto simp add: keys_dict_set meta_keys_def)
    from assms(2) [unfolded parse_meta_organism [OF False ox] Let_def]
    obtain digits organism m' m'' where
      1: "append_to ?m ''taxid'' (JInt (int (int_of_digits digits))) = Inr m'"
      and 2: "append_to m' ''organism'' (JStr organism) = Inr m''"
      and e': "e' = e\<lparr>entry_meta := m''\<rparr>"
      by (auto split: option.splits sum.splits)
    have "fst ` set m'' = fst ` set ?m"
      using append_to_keys [OF 1] append_to_keys [OF 2] by simp
    then show ?thesis using m by (simp add: e')
  next
    case other: False
    show ?thesis
      using assms unfolding parse_meta_other [OF False other] by auto
  qed
qed

lemma assign_sources_meta:
  "assign_sources e marker allele_str sources = Inr e' \<Longrightarrow> entry_meta e' = entry_meta e"
  by (induction e marker allele_str sources rule: assign_sources.induct)
     (auto split: option.splits)

lemma parse_sources_meta:
  "parse_sources e line = Inr e' \<Longrightarrow> entry_meta e' = entry_meta e"
  "parse_sources e line \<noteq> Inl (AssertionError k)"
  by (auto simp add: parse_sources_def split: option.splits if_splits)

lemma assign_sources_no_assertion:
  "assign_sources e marker allele_str sources \<noteq> Inl (AssertionError k)"
  by (induction e marker allele_str sources rule: assign_sources.induct)
     (auto split: option.splits)

lemma parse_alleles_meta:
  "parse_alleles e line = Inr e' \<Longrightarrow> entry_meta e' = entry_meta e"
  "parse_alleles e line \<noteq> Inl (AssertionError k)"
  by (auto simp add: parse_alleles_def assign_sources_no_assertion
           split: option.splits if_splits dest: assign_sources_meta)

lemma entry_loop_no_assertion:
  "fst ` set (entry_meta e) \<subseteq> meta_keys \<Longrightarrow> entry_loop e data \<noteq> Inl (AssertionError k)"
proof (induction data arbitrary: e)
  case Nil
  then show ?case by simp
next
  case (Cons line data)
  show ?case
  proof (cases "parse_meta e line")
    case (Inl err)
    then show ?thesis using parse_meta_no_assertion [OF Cons.prems, of line k] by auto
  next
    case e1: (Inr e1)
    have k1: "fst ` set (entry_meta e1) \<subseteq> meta_keys"
      using parse_meta_keys [OF Cons.prems e1] .
    show ?thesis
    proof (cases "parse_sources e1 line")
      case (Inl err)
      then show ?thesis using e1 parse_sources_meta(2) [of e1 line k] by auto
    next
      case e2: (Inr e2)
      have k2: "fst ` set (entry_meta e2) \<subseteq> meta_keys"
        using k1 parse_sources_meta(1) [OF e2] by simp
      show ?thesis
      proof (cases "parse_alleles e2 line")
        case (Inl err)
        then show ?thesis using e1 e2 parse_alleles_meta(2) [of e2 line k] by auto
      next
        case e3: (Inr e3)
        have "fst ` set (entry_meta e3) \<subseteq> meta_keys"
          using k2 parse_alleles_meta(1) [OF e3] by simp
        from Cons.IH [OF this] show ?thesis using e1 e2 e3 by simp
      qed
    qed
  qed
qed

text \<open>
  C1, on the code. A record with two \<open>ID\<close> lines is parsed without error and keeps the
  value of the second line. The assertion of \<open>parse_meta\<close> tests the line code
  (\<open>"ID"\<close>) against the keys of \<open>meta\<close>, which are attribute names
  (\<open>"identifier"\<close>), so for no record at all does it fail.
\<close>

theorem duplicate_ID_accepted:
  "CellosaurusEntry [''ID   HeLa'', ''AC   CVCL_0030'', ''ID   HeLa S3'']
     = Inr \<lparr>entry_meta = [(''identifier'', JStr ''HeLa S3''), (''accession'', JStr ''CVCL_0030'')],
            entry_alleles = [], entry_warnings = []\<rparr>
   \<and> (\<forall>data key. CellosaurusEntry data \<noteq> Inl (AssertionError key))"
proof
  show "CellosaurusEntry [''ID   HeLa'', ''AC   CVCL_0030'', ''ID   HeLa S3'']
     = Inr \<lparr>entry_meta = [(''identifier'', JStr ''HeLa S3''), (''accession'', JStr ''CVCL_0030'')],
            entry_alleles = [], entry_warnings = []\<rparr>"
    by code_simp
  show "\<forall>data key. CellosaurusEntry data \<noteq> Inl (AssertionError key)"
    by (simp add: CellosaurusEntry_def entry_loop_no_assertion)
qed

section \<open>The order of profile results\<close>

lemma has_slug_Inr: "has_slug r \<Longrightarrow> slug (r_reference r) = Inr (snd (snd (rank_key r)))"
  by (auto simp add: has_slug_def rank_key_def split: sum.splits)



lemma set_insert_lt: "set (insert_lt lt x ys) = insert x (set ys)"
  by (induction ys) auto











end
